theory Spec2Isabelle
  imports Complex_Main "HOL-Library.AList"
begin

section \<open>Python values\<close>

text \<open>
  The survey application handles table cells that are Python strings (text typed into the
  form, text columns of an uploaded CSV) or numbers (numeric CSV columns; a missing CSV
  cell is the float NaN). A Python \<open>str\<close> is modelled as a \<open>string\<close> whose characters
  are the code points 0..255. A Python \<open>float\<close> is modelled by its exact value: a
  rational, one of the two infinities, or NaN. Rounding to 53 bits and overflow to
  infinity are not modelled.
\<close>

datatype pyfloat = Fin rat | PInf | NInf | NaN

datatype pynum = PyInt int | PyFloat pyfloat

datatype pyval = Str string | Num pynum

type_synonym row = "string \<rightharpoonup> pyval"

datatype risk = Low | Medium | High

subsection \<open>Float and number arithmetic\<close>

fun fadd :: "pyfloat \<Rightarrow> pyfloat \<Rightarrow> pyfloat" where
  "fadd NaN _ = NaN"
| "fadd _ NaN = NaN"
| "fadd (Fin a) (Fin b) = Fin (a + b)"
| "fadd PInf NInf = NaN"
| "fadd NInf PInf = NaN"
| "fadd PInf _ = PInf"
| "fadd _ PInf = PInf"
| "fadd NInf _ = NInf"
| "fadd _ NInf = NInf"

definition fscale :: "pyfloat \<Rightarrow> rat \<Rightarrow> pyfloat" where
  \<comment> \<open>product of a float with a finite float \<open>k\<close>\<close>
  "fscale x k =
     (case x of
        Fin a \<Rightarrow> Fin (a * k)
      | NaN \<Rightarrow> NaN
      | PInf \<Rightarrow> (if k = 0 then NaN else if 0 < k then PInf else NInf)
      | NInf \<Rightarrow> (if k = 0 then NaN else if 0 < k then NInf else PInf))"

fun fmul :: "pyfloat \<Rightarrow> pyfloat \<Rightarrow> pyfloat" where
  "fmul x (Fin k) = fscale x k"
| "fmul (Fin k) y = fscale y k"
| "fmul NaN _ = NaN"
| "fmul _ NaN = NaN"
| "fmul PInf PInf = PInf"
| "fmul NInf NInf = PInf"
| "fmul PInf NInf = NInf"
| "fmul NInf PInf = NInf"

fun flt :: "pyfloat \<Rightarrow> pyfloat \<Rightarrow> bool" where
  "flt NaN _ = False"
| "flt _ NaN = False"
| "flt (Fin a) (Fin b) = (a < b)"
| "flt NInf NInf = False"
| "flt NInf _ = True"
| "flt _ NInf = False"
| "flt PInf _ = False"
| "flt _ PInf = True"

fun to_float :: "pynum \<Rightarrow> pyfloat" where
  "to_float (PyInt n) = Fin (of_int n)"
| "to_float (PyFloat f) = f"

fun num_add :: "pynum \<Rightarrow> pynum \<Rightarrow> pynum" where
  "num_add (PyInt a) (PyInt b) = PyInt (a + b)"
| "num_add x y = PyFloat (fadd (to_float x) (to_float y))"

fun num_mul :: "pynum \<Rightarrow> pynum \<Rightarrow> pynum" where
  "num_mul (PyInt a) (PyInt b) = PyInt (a * b)"
| "num_mul x y = PyFloat (fmul (to_float x) (to_float y))"

fun num_lt :: "pynum \<Rightarrow> pynum \<Rightarrow> bool" where
  "num_lt (PyInt a) (PyInt b) = (a < b)"
| "num_lt x y = flt (to_float x) (to_float y)"

definition py_min :: "pynum \<Rightarrow> pynum \<Rightarrow> pynum" where
  \<comment> \<open>the builtin \<open>min(a, b)\<close>: the first argument unless the second is smaller\<close>
  "py_min a b = (if num_lt b a then b else a)"

subsection \<open>Strings\<close>

definition py_lower_char :: "char \<Rightarrow> char" where
  "py_lower_char c =
     (let n = (of_char c :: nat)
      in if (65 \<le> n \<and> n \<le> 90) \<or> (192 \<le> n \<and> n \<le> 222 \<and> n \<noteq> 215)
         then char_of (n + 32) else c)"

definition py_lower :: "string \<Rightarrow> string" where
  "py_lower s = map py_lower_char s"

definition py_isspace :: "char \<Rightarrow> bool" where
  "py_isspace c =
     (let n = (of_char c :: nat)
      in (9 \<le> n \<and> n \<le> 13) \<or> (28 \<le> n \<and> n \<le> 32) \<or> n = 133 \<or> n = 160)"

definition py_strip :: "string \<Rightarrow> string" where
  "py_strip s = rev (dropWhile py_isspace (rev (dropWhile py_isspace s)))"

fun py_remove :: "string \<Rightarrow> string \<Rightarrow> string" where
  \<comment> \<open>\<open>s.replace(pat, '')\<close> for a non-empty \<open>pat\<close>: occurrences are removed left to right\<close>
  "py_remove pat [] = []"
| "py_remove pat (c # cs) =
     (if pat \<noteq> [] \<and> take (length pat) (c # cs) = pat
      then py_remove pat (drop (length pat - 1) cs)
      else c # py_remove pat cs)"

definition is_digit :: "char \<Rightarrow> bool" where
  "is_digit c = (let n = (of_char c :: nat) in 48 \<le> n \<and> n \<le> 57)"

definition digit_val :: "char \<Rightarrow> nat" where
  "digit_val c = of_char c - 48"

fun digitpart :: "string \<Rightarrow> nat list option" where
  \<comment> \<open>digits, with single underscores allowed between two digits\<close>
  "digitpart [] = None"
| "digitpart [c] = (if is_digit c then Some [digit_val c] else None)"
| "digitpart (c # d # cs) =
     (if is_digit c
      then map_option (Cons (digit_val c))
             (if d = CHR ''_'' then digitpart cs else digitpart (d # cs))
      else None)"

definition nat_of_digits :: "nat list \<Rightarrow> nat" where
  "nat_of_digits ds = foldl (\<lambda>a d. 10 * a + d) 0 ds"

definition split_sign :: "string \<Rightarrow> int \<times> string" where
  "split_sign s =
     (case s of
        [] \<Rightarrow> (1, [])
      | c # cs \<Rightarrow> if c = CHR ''+'' then (1, cs) else if c = CHR ''-'' then (-1, cs) else (1, s))"

definition py_int_str :: "string \<Rightarrow> int option" where
  \<comment> \<open>\<open>int(s)\<close> on a string, base 10; \<open>None\<close> is the ValueError\<close>
  "py_int_str s =
     (let (sg, body) = split_sign (py_strip s)
      in map_option (\<lambda>ds. sg * int (nat_of_digits ds)) (digitpart body))"

definition split_at :: "(char \<Rightarrow> bool) \<Rightarrow> string \<Rightarrow> string \<times> string option" where
  \<comment> \<open>the text before the first character satisfying \<open>p\<close>, and the text after it if there is one\<close>
  "split_at p s =
     (case dropWhile (\<lambda>c. \<not> p c) s of
        [] \<Rightarrow> (s, None)
      | _ # r \<Rightarrow> (takeWhile (\<lambda>c. \<not> p c) s, Some r))"

definition mantissa :: "string \<Rightarrow> rat option" where
  \<comment> \<open>\<open>digitpart\<close>, \<open>digitpart.\<close>, \<open>digitpart.digitpart\<close> or \<open>.digitpart\<close>\<close>
  "mantissa s =
     (case split_at (\<lambda>c. c = CHR ''.'') s of
        (ip, None) \<Rightarrow> map_option (\<lambda>ds. of_nat (nat_of_digits ds)) (digitpart ip)
      | (ip, Some fp) \<Rightarrow>
          (if fp = [] then map_option (\<lambda>ds. of_nat (nat_of_digits ds)) (digitpart ip)
           else case digitpart fp of
             None \<Rightarrow> None
           | Some fs \<Rightarrow>
               (let frac = of_nat (nat_of_digits fs) / 10 ^ length fs
                in if ip = [] then Some frac
                   else map_option (\<lambda>ds. of_nat (nat_of_digits ds) + frac) (digitpart ip))))"

definition exponent :: "string \<Rightarrow> int option" where
  "exponent s = (let (sg, body) = split_sign s
                 in map_option (\<lambda>ds. sg * int (nat_of_digits ds)) (digitpart body))"

definition pow10 :: "int \<Rightarrow> rat" where
  "pow10 e = (if 0 \<le> e then 10 ^ nat e else 1 / 10 ^ nat (- e))"

definition floatnumber :: "string \<Rightarrow> rat option" where
  "floatnumber s =
     (case split_at (\<lambda>c. c = CHR ''e'' \<or> c = CHR ''E'') s of
        (m, None) \<Rightarrow> mantissa m
      | (m, Some e) \<Rightarrow>
          (case (mantissa m, exponent e) of
             (Some q, Some k) \<Rightarrow> Some (q * pow10 k)
           | _ \<Rightarrow> None))"

definition py_float_str :: "string \<Rightarrow> pyfloat option" where
  \<comment> \<open>\<open>float(s)\<close> on a string; \<open>None\<close> is the ValueError\<close>
  "py_float_str s =
     (let (sg, body) = split_sign (py_strip s); low = py_lower body
      in if low = ''inf'' \<or> low = ''infinity'' then Some (if sg = 1 then PInf else NInf)
         else if low = ''nan'' then Some NaN
         else map_option (\<lambda>q. Fin (of_int sg * q)) (floatnumber body))"

fun py_float :: "pyval \<Rightarrow> pyfloat option" where
  \<comment> \<open>the builtin \<open>float(x)\<close>; \<open>None\<close> when it raises\<close>
  "py_float (Str s) = py_float_str s"
| "py_float (Num n) = Some (to_float n)"

section \<open>Risk scoring\<close>

definition row_get :: "row \<Rightarrow> string \<Rightarrow> pyval \<Rightarrow> pyval" where
  \<comment> \<open>\<open>row.get(key, default)\<close>\<close>
  "row_get r k d = (case r k of Some v \<Rightarrow> v | None \<Rightarrow> d)"

definition symptoms :: "string list" where
  "symptoms = [''eye_strain'', ''blurry_vision'', ''dry_eyes'', ''headaches'', ''neck_pain'']"

fun str_lower_in :: "pyval \<Rightarrow> string list \<Rightarrow> bool" where
  \<comment> \<open>\<open>str(v).lower() in opts\<close> for option lists of alphabetic words other than
      \<open>inf\<close> and \<open>nan\<close>: the text of a number consists of digits, sign, point,
      exponent mark, \<open>inf\<close> or \<open>nan\<close>, so a number never matches\<close>
  "str_lower_in (Str s) opts = (py_lower s \<in> set opts)"
| "str_lower_in (Num _) opts = False"

definition hours_of :: "row \<Rightarrow> pynum" where
  \<comment> \<open>the \<open>try\<close> block: any failure of either conversion leaves the integer 0\<close>
  "hours_of r =
     (case py_float (row_get r ''hours_academic'' (Num (PyInt 0))) of
        None \<Rightarrow> PyInt 0
      | Some a \<Rightarrow>
          (case py_float (row_get r ''hours_non_academic'' (Num (PyInt 0))) of
             None \<Rightarrow> PyInt 0
           | Some b \<Rightarrow> PyFloat (fadd a b)))"

definition symptom_count :: "row \<Rightarrow> nat" where
  "symptom_count r =
     length (filter (\<lambda>s. str_lower_in (row_get r s (Str ''No'')) [''yes'', ''sometimes''])
               symptoms)"

definition calculate_risk :: "row \<Rightarrow> pynum \<times> risk" where
  "calculate_risk r =
     (let score = PyInt 0;
          hours = hours_of r;
          score = num_add score (py_min (num_mul hours (PyInt 10)) (PyInt 50));
          score = num_add score (PyInt (int (symptom_count r) * 10))
      in (score,
          if num_lt score (PyInt 30) then Low
          else if num_lt score (PyInt 60) then Medium
          else High))"


section \<open>Data frames\<close>

text \<open>
  A pandas \<open>DataFrame\<close> is a list of column labels and, for each record, the list of its
  cells in column order. The records are numbered from 0 (the default index of
  \<open>read_csv\<close> and of \<open>DataFrame([response])\<close>). Column labels are taken to be distinct;
  the row view of a record then maps each label to its cell.
\<close>

record frame =
  columns :: "string list"
  cells :: "pyval list list"

definition wf_frame :: "frame \<Rightarrow> bool" where
  "wf_frame df \<longleftrightarrow>
     distinct (columns df) \<and> (\<forall>vs \<in> set (cells df). length vs = length (columns df))"

definition row_of :: "frame \<Rightarrow> pyval list \<Rightarrow> row" where
  "row_of df vs = map_of (zip (columns df) vs)"

definition iterrows :: "frame \<Rightarrow> (nat \<times> row) list" where
  \<comment> \<open>\<open>df.iterrows()\<close>: index label and row view of every record\<close>
  "iterrows df = zip [0 ..< length (cells df)] (map (row_of df) (cells df))"

datatype error = KeyError string | AttributeError | ValueError | JSONDecodeError

definition column :: "frame \<Rightarrow> string \<Rightarrow> pyval list option" where
  \<comment> \<open>\<open>df[c]\<close>; \<open>None\<close> is the KeyError. A cell that a record lacks reads as NaN.\<close>
  "column df c =
     (if c \<in> set (columns df)
      then Some (map (\<lambda>vs. row_get (row_of df vs) c (Num (PyFloat NaN))) (cells df))
      else None)"

definition set_column :: "frame \<Rightarrow> string \<Rightarrow> pyval list \<Rightarrow> frame" where
  \<comment> \<open>\<open>df[c] = vals\<close>, one value per record: an existing column is overwritten in
      place, a new one is appended\<close>
  "set_column df c vals =
     (if c \<in> set (columns df)
      then df\<lparr>cells := map2 (\<lambda>vs v. map2 (\<lambda>k x. if k = c then v else x) (columns df) vs)
                           (cells df) vals\<rparr>
      else df\<lparr>columns := columns df @ [c],
              cells := map2 (\<lambda>vs v. vs @ [v]) (cells df) vals\<rparr>)"

definition py_isna :: "pyval \<Rightarrow> bool" where
  "py_isna v \<longleftrightarrow> v = Num (PyFloat NaN)"

section \<open>Chart generation\<close>

definition symptom_cols :: "string list" where
  "symptom_cols = [''eye_strain'', ''blurry_vision'', ''dry_eyes'', ''headaches'', ''neck_pain'']"

datatype chart =
    Bar "(string \<times> nat) list"
  | Pie "(pyval \<times> nat) list"
  | Scatter "(int \<times> nat) list"

fun is_str :: "pyval \<Rightarrow> bool" where
  "is_str (Str _) = True"
| "is_str (Num _) = False"

definition str_accessor_ok :: "pyval list \<Rightarrow> bool" where
  \<comment> \<open>\<open>series.str\<close> raises AttributeError on a column that is not of text type; with
      the column types that \<open>read_csv\<close> infers, that is a column with records of which
      no cell is a string\<close>
  "str_accessor_ok vs \<longleftrightarrow> vs = [] \<or> (\<exists>v \<in> set vs. is_str v)"

fun lower_eq_yes :: "pyval \<Rightarrow> bool" where
  \<comment> \<open>an entry of \<open>series.str.lower() == "yes"\<close>: a cell that is not a string gives NaN,
      which is not equal to \<open>"yes"\<close>\<close>
  "lower_eq_yes (Str s) = (py_lower s = ''yes'')"
| "lower_eq_yes (Num _) = False"

definition yes_count :: "frame \<Rightarrow> string \<Rightarrow> error + nat" where
  \<comment> \<open>\<open>(df[col].str.lower() == "yes").sum()\<close>\<close>
  "yes_count df col =
     (case column df col of
        None \<Rightarrow> Inl (KeyError col)
      | Some vs \<Rightarrow>
          if str_accessor_ok vs then Inr (length (filter lower_eq_yes vs))
          else Inl AttributeError)"

fun symptom_counts :: "frame \<Rightarrow> string list \<Rightarrow> error + (string \<times> nat) list" where
  \<comment> \<open>the dictionary comprehension over \<open>symptom_cols\<close>; the first failure is raised\<close>
  "symptom_counts df [] = Inr []"
| "symptom_counts df (col # cols) =
     (case yes_count df col of
        Inl e \<Rightarrow> Inl e
      | Inr n \<Rightarrow>
          (case symptom_counts df cols of
             Inl e \<Rightarrow> Inl e
           | Inr ns \<Rightarrow> Inr ((col, n) # ns)))"

definition value_counts :: "pyval list \<Rightarrow> (pyval \<times> nat) list" where
  \<comment> \<open>\<open>series.value_counts()\<close>: the distinct values other than NaN with their number of
      occurrences, most frequent first (equally frequent ones in order of first
      appearance)\<close>
  "value_counts vs =
     (let xs = filter (\<lambda>v. \<not> py_isna v) vs
      in sort_key (\<lambda>(v, n). - int n)
           (map (\<lambda>v. (v, count_list xs v)) (rev (remdups (rev xs)))))"

fun cleaned_int :: "pyval \<Rightarrow> int option" where
  \<comment> \<open>\<open>int(str(x).replace('+','').replace('times','').strip())\<close>; \<open>None\<close> is the
      ValueError. The text of an integer is its decimal literal, which the two
      replacements leave alone and \<open>int\<close> reads back; the text of a float always holds
      a point, an exponent mark, \<open>inf\<close> or \<open>nan\<close>, which \<open>int\<close> rejects.\<close>
  "cleaned_int (Str s) = py_int_str (py_strip (py_remove ''times'' (py_remove ''+'' s)))"
| "cleaned_int (Num (PyInt n)) = Some n"
| "cleaned_int (Num (PyFloat f)) = None"

definition break_frequency_numeric :: "pyval \<Rightarrow> error + int" where
  \<comment> \<open>the lambda applied to every cell of \<open>break_frequency\<close>\<close>
  "break_frequency_numeric x =
     (if py_isna x then Inr 0
      else case cleaned_int x of None \<Rightarrow> Inl ValueError | Some n \<Rightarrow> Inr n)"

fun apply_all :: "('a \<Rightarrow> error + 'b) \<Rightarrow> 'a list \<Rightarrow> error + 'b list" where
  \<comment> \<open>\<open>series.apply(f)\<close>: cell by cell, the first exception ends it\<close>
  "apply_all f [] = Inr []"
| "apply_all f (x # xs) =
     (case f x of
        Inl e \<Rightarrow> Inl e
      | Inr y \<Rightarrow> (case apply_all f xs of Inl e \<Rightarrow> Inl e | Inr ys \<Rightarrow> Inr (y # ys)))"

definition symptom_score :: "row \<Rightarrow> nat" where
  \<comment> \<open>the lambda applied to every record for the scatter plot\<close>
  "symptom_score r =
     length (filter (\<lambda>s. str_lower_in (row_get r s (Str ''No'')) [''yes'']) symptom_cols)"

definition generate_charts :: "frame \<Rightarrow> (error + (string \<times> chart) list) \<times> frame" where
  \<comment> \<open>returns the charts (or the exception raised) and the frame as the call leaves it\<close>
  "generate_charts df =
     (case symptom_counts df symptom_cols of
        Inl e \<Rightarrow> (Inl e, df)
      | Inr sc \<Rightarrow>
          (case column df ''devices'' of
             None \<Rightarrow> (Inl (KeyError ''devices''), df)
           | Some dv \<Rightarrow>
               (let charts = [(''symptoms'', Bar sc), (''devices'', Pie (value_counts dv))]
                in case column df ''break_frequency'' of
                     None \<Rightarrow> (Inr charts, df)
                   | Some bf \<Rightarrow>
                       (case apply_all break_frequency_numeric bf of
                          Inl e \<Rightarrow> (Inl e, df)
                        | Inr nums \<Rightarrow>
                            (let df1 = set_column df ''break_frequency_numeric''
                                         (map (\<lambda>n. Num (PyInt n)) nums);
                                 scores = map (\<lambda>vs. symptom_score (row_of df1 vs)) (cells df1);
                                 df2 = set_column df1 ''symptom_score''
                                         (map (\<lambda>n. Num (PyInt (int n))) scores)
                             in (Inr (charts @ [(''breaks'', Scatter (zip nums scores))]),
                                 df2))))))"

section \<open>Column mapping\<close>

text \<open>
  A column mapping is a Python dictionary from source column names to canonical field
  names: a list of key-value pairs in insertion order, with distinct keys. Storing under
  an existing key replaces its value in place; a new key is appended.
\<close>

type_synonym mapping = "(string \<times> string) list"

definition STANDARD_COLUMNS :: "string list" where
  "STANDARD_COLUMNS =
     [''timestamp'', ''consent'', ''age_group'', ''age'', ''sex'', ''grade_level'',
      ''hours_academic'', ''hours_non_academic'', ''devices'', ''break_frequency'',
      ''screen_tools'', ''screen_tools_details'', ''eye_strain'', ''blurry_vision'',
      ''dry_eyes'', ''headaches'', ''neck_pain'', ''symptoms_worse'', ''lighting'',
      ''posture'', ''twenty_rule'', ''eye_level_screen'', ''visited_specialist'',
      ''impact_schoolwork'', ''mitigation_measures'', ''school_support_opinion'']"

subsection \<open>The mapping file\<close>

text \<open>
  The state of the file system that matters is the text of \<open>google_forms_mapping.json\<close>,
  or \<open>None\<close> when the file does not exist. The file is written by \<open>json.dump\<close> with
  \<open>indent=4\<close> and read by \<open>json.load\<close>. The reader is modelled on the documents that the
  application writes, objects whose values are strings; any other text is reported
  as a decoding error, and so is an escape \<open>\u\<close> of a code point above 255.
\<close>

type_synonym file_state = "string option"

definition hex_digit :: "nat \<Rightarrow> char" where
  "hex_digit n = (if n < 10 then char_of (48 + n) else char_of (87 + n))"

definition escape_char :: "char \<Rightarrow> string" where
  \<comment> \<open>one character of a string literal, as \<open>ensure_ascii\<close> writes it\<close>
  "escape_char c =
     (let n = (of_char c :: nat)
      in if c = CHR 0x22 then [CHR 0x5C, CHR 0x22]
         else if c = CHR 0x5C then [CHR 0x5C, CHR 0x5C]
         else if c = CHR 0x0A then [CHR 0x5C, CHR ''n'']
         else if c = CHR 0x0D then [CHR 0x5C, CHR ''r'']
         else if c = CHR 0x09 then [CHR 0x5C, CHR ''t'']
         else if c = CHR 0x08 then [CHR 0x5C, CHR ''b'']
         else if c = CHR 0x0C then [CHR 0x5C, CHR ''f'']
         else if 32 \<le> n \<and> n \<le> 126 then [c]
         else [CHR 0x5C, CHR ''u'', CHR ''0'', CHR ''0'', hex_digit (n div 16), hex_digit (n mod 16)])"

definition json_string :: "string \<Rightarrow> string" where
  "json_string s = CHR 0x22 # concat (map escape_char s) @ [CHR 0x22]"

definition json_member :: "string \<times> string \<Rightarrow> string" where
  \<comment> \<open>a key, the separator and the value\<close>
  "json_member kv = json_string (fst kv) @ '': '' @ json_string (snd kv)"

definition json_item :: "string \<times> string \<Rightarrow> string" where
  \<comment> \<open>one member of the object, on a line of its own, indented by four spaces\<close>
  "json_item kv = ''    '' @ json_member kv"

fun json_items :: "mapping \<Rightarrow> string" where
  "json_items [] = []"
| "json_items [kv] = json_item kv"
| "json_items (kv # kvs) = json_item kv @ [CHR '','', CHR 0x0A] @ json_items kvs"

definition json_dump :: "mapping \<Rightarrow> string" where
  \<comment> \<open>\<open>json.dump(mapping, f, indent=4)\<close>\<close>
  "json_dump m =
     (if m = [] then ''{}''
      else [CHR ''{'', CHR 0x0A] @ json_items m @ [CHR 0x0A, CHR ''}''])"

definition is_ws :: "char \<Rightarrow> bool" where
  "is_ws c \<longleftrightarrow> c = CHR '' '' \<or> c = CHR 0x09 \<or> c = CHR 0x0A \<or> c = CHR 0x0D"

definition skip_ws :: "string \<Rightarrow> string" where
  "skip_ws txt = dropWhile is_ws txt"

definition hex_val :: "char \<Rightarrow> nat option" where
  "hex_val c =
     (let n = (of_char c :: nat)
      in if 48 \<le> n \<and> n \<le> 57 then Some (n - 48)
         else if 97 \<le> n \<and> n \<le> 102 then Some (n - 87)
         else if 65 \<le> n \<and> n \<le> 70 then Some (n - 55)
         else None)"

definition hex4 :: "string \<Rightarrow> nat option" where
  \<comment> \<open>the value of exactly four hexadecimal digits\<close>
  "hex4 ds =
     (case map hex_val ds of
        [Some a, Some b, Some c, Some d] \<Rightarrow> Some (((a * 16 + b) * 16 + c) * 16 + d)
      | _ \<Rightarrow> None)"

definition unescape :: "char \<Rightarrow> char option" where
  \<comment> \<open>the character that a backslash and \<open>e\<close> stand for\<close>
  "unescape e =
     (if e = CHR 0x22 then Some (CHR 0x22)
      else if e = CHR 0x5C then Some (CHR 0x5C)
      else if e = CHR ''/'' then Some (CHR ''/'')
      else if e = CHR ''b'' then Some (CHR 0x08)
      else if e = CHR ''f'' then Some (CHR 0x0C)
      else if e = CHR ''n'' then Some (CHR 0x0A)
      else if e = CHR ''r'' then Some (CHR 0x0D)
      else if e = CHR ''t'' then Some (CHR 0x09)
      else None)"

fun string_body :: "string \<Rightarrow> (string \<times> string) option" where
  \<comment> \<open>the text after an opening quote: the string it denotes and the text after the
      closing quote\<close>
  "string_body [] = None"
| "string_body (c # cs) =
     (if c = CHR 0x22 then Some ([], cs)
      else if c = CHR 0x5C then
        (case cs of
           [] \<Rightarrow> None
         | e # r \<Rightarrow>
             if e = CHR ''u'' then
               (case hex4 (take 4 r) of
                  None \<Rightarrow> None
                | Some n \<Rightarrow>
                    if n < 256
                    then map_option (\<lambda>(s, rest). (char_of n # s, rest)) (string_body (drop 4 r))
                    else None)
             else
               (case unescape e of
                  None \<Rightarrow> None
                | Some d \<Rightarrow> map_option (\<lambda>(s, rest). (d # s, rest)) (string_body r)))
      else if (of_char c :: nat) < 32 then None
      else map_option (\<lambda>(s, rest). (c # s, rest)) (string_body cs))"

definition string_lit :: "string \<Rightarrow> (string \<times> string) option" where
  "string_lit txt =
     (case txt of [] \<Rightarrow> None | c # cs \<Rightarrow> if c = CHR 0x22 then string_body cs else None)"

lemma string_body_shorter:
  "string_body cs = Some (s, rest) \<Longrightarrow> length rest < Suc (length cs)"
proof (induction cs arbitrary: s rest rule: string_body.induct)
  case 1
  then show ?case by simp
next
  case (2 c cs)
  show ?case
  proof (cases "c = CHR 0x22")
    case True
    with "2.prems" show ?thesis by simp
  next
    case quote: False
    show ?thesis
    proof (cases "c = CHR 0x5C")
      case True
      with quote "2.prems" obtain e r where cs: "cs = e # r"
        by (cases cs) auto
      show ?thesis
      proof (cases "e = CHR ''u''")
        case u: True
        with True quote cs "2.prems" obtain n s' where
          "hex4 (take 4 r) = Some n" "n < 256" "string_body (drop 4 r) = Some (s', rest)"
          by (auto split: option.splits if_splits)
        with "2.IH"(1) [OF quote True cs u] have "length rest < Suc (length (drop 4 r))"
          by blast
        with cs show ?thesis by simp
      next
        case nu: False
        with True quote cs "2.prems" obtain d s' where
          "unescape e = Some d" "string_body r = Some (s', rest)"
          by (auto split: option.splits)
        with "2.IH"(2) [OF quote True cs nu] have "length rest < Suc (length r)"
          by blast
        with cs show ?thesis by simp
      qed
    next
      case False
      with quote "2.prems" obtain s' where
        c: "\<not> (of_char c :: nat) < 32" and "string_body cs = Some (s', rest)"
        by (auto split: if_splits)
      with "2.IH"(3) [OF quote False c] have "length rest < Suc (length cs)"
        by blast
      then show ?thesis by simp
    qed
  qed
qed

lemma string_lit_shorter: "string_lit txt = Some (s, rest) \<Longrightarrow> length rest < length txt"
  by (cases "txt") (auto simp: string_lit_def dest: string_body_shorter split: if_splits)

lemma skip_ws_length: "length (skip_ws txt) \<le> length txt"
  by (simp add: skip_ws_def length_dropWhile_le)

function members :: "mapping \<Rightarrow> string \<Rightarrow> (mapping \<times> string) option" where
  \<comment> \<open>the members of an object from the first key on, up to the closing brace; a
      repeated key replaces the value stored under it\<close>
  "members acc txt =
     (case string_lit txt of
        None \<Rightarrow> None
      | Some (k, r1) \<Rightarrow>
          (case skip_ws r1 of
             [] \<Rightarrow> None
           | c # r2 \<Rightarrow>
               if c \<noteq> CHR '':'' then None
               else
                 (case string_lit (skip_ws r2) of
                    None \<Rightarrow> None
                  | Some (v, r3) \<Rightarrow>
                      (case skip_ws r3 of
                         [] \<Rightarrow> None
                       | d # r4 \<Rightarrow>
                           if d = CHR ''}'' then Some (AList.update k v acc, r4)
                           else if d = CHR '','' then members (AList.update k v acc) (skip_ws r4)
                           else None))))"
  by pat_completeness auto
termination
proof (relation "measure (\<lambda>(acc, txt). length txt)")
  show "wf (measure (\<lambda>(acc, txt). length txt))" by simp
next
  fix acc :: mapping and inp x2 k r1 c r2 x2a v r3 d r4
  assume 1: "string_lit inp = Some x2" "(k, r1) = x2" "skip_ws r1 = c # r2"
    and 2: "string_lit (skip_ws r2) = Some x2a" "(v, r3) = x2a" "skip_ws r3 = d # r4"
  have "length (skip_ws r4) \<le> length r4" by (rule skip_ws_length)
  also have "length r4 < length (skip_ws r3)" using 2(3) by simp
  also have "\<dots> \<le> length r3" by (rule skip_ws_length)
  also have "length r3 < length (skip_ws r2)"
    using 2(1,2) string_lit_shorter [of "skip_ws r2" v r3] by simp
  also have "\<dots> \<le> length r2" by (rule skip_ws_length)
  also have "length r2 < length (skip_ws r1)" using 1(3) by simp
  also have "\<dots> \<le> length r1" by (rule skip_ws_length)
  also have "length r1 < length inp"
    using 1(1,2) string_lit_shorter [of inp k r1] by simp
  finally show "((AList.update k v acc, skip_ws r4), (acc, inp)) \<in> measure (\<lambda>(acc, txt). length txt)"
    by simp
qed

declare members.simps [simp del]

definition json_load :: "string \<Rightarrow> mapping option" where
  \<comment> \<open>\<open>json.load(f)\<close> on the text of the file; \<open>None\<close> when decoding fails\<close>
  "json_load txt =
     (case skip_ws txt of
        [] \<Rightarrow> None
      | c # r \<Rightarrow>
          if c \<noteq> CHR ''{'' then None
          else
            (case skip_ws r of
               [] \<Rightarrow> None
             | d # r' \<Rightarrow>
                 if d = CHR ''}'' then (if skip_ws r' = [] then Some [] else None)
                 else
                   (case members [] (d # r') of
                      None \<Rightarrow> None
                    | Some (m, rest) \<Rightarrow> if skip_ws rest = [] then Some m else None)))"

definition load_mapping :: "file_state \<Rightarrow> error + mapping option" where
  \<comment> \<open>the stored mapping, or Python's \<open>None\<close> when the file does not exist\<close>
  "load_mapping fs =
     (case fs of
        None \<Rightarrow> Inr None
      | Some txt \<Rightarrow> (case json_load txt of None \<Rightarrow> Inl JSONDecodeError | Some m \<Rightarrow> Inr (Some m)))"

definition save_mapping :: "mapping \<Rightarrow> file_state \<Rightarrow> file_state" where
  \<comment> \<open>opening the file for writing discards what it held\<close>
  "save_mapping m fs = Some (json_dump m)"

definition reset_mapping :: "file_state \<Rightarrow> file_state" where
  "reset_mapping fs = (case fs of None \<Rightarrow> None | Some txt \<Rightarrow> None)"

subsection \<open>Applying and building a mapping\<close>

definition rename_label :: "mapping \<Rightarrow> string \<Rightarrow> string" where
  "rename_label m c = (case map_of m c of Some t \<Rightarrow> t | None \<Rightarrow> c)"

definition rename_columns :: "mapping \<Rightarrow> frame \<Rightarrow> frame" where
  \<comment> \<open>\<open>df.rename(columns=m)\<close>: a label that is a key of \<open>m\<close> is replaced by its value,
      any other label stays; the cells are not touched\<close>
  "rename_columns m df = df\<lparr>columns := map (rename_label m) (columns df)\<rparr>"

definition skip_option :: string where
  "skip_option = ''-- skip --''"

definition assign_choice :: "string \<times> string \<Rightarrow> mapping \<Rightarrow> mapping" where
  \<comment> \<open>the body of the loop, for the canonical field \<open>std_col\<close> and the option selected
      for it\<close>
  "assign_choice p mapping =
     (case p of (std_col, choice) \<Rightarrow>
        if choice \<noteq> skip_option then AList.update choice std_col mapping else mapping)"

definition build_mapping :: "string list \<Rightarrow> mapping" where
  \<comment> \<open>the loop over \<open>STANDARD_COLUMNS\<close>; \<open>choices\<close> holds, in that order, what the
      select box of each canonical field returns\<close>
  "build_mapping choices = fold assign_choice (zip STANDARD_COLUMNS choices) []"

definition map_google_forms ::
  "file_state \<Rightarrow> string list \<Rightarrow> bool \<Rightarrow> frame \<Rightarrow> error + frame \<times> file_state" where
  \<comment> \<open>\<open>choices\<close> are the selections made in the form and \<open>save_clicked\<close> tells whether
      the button was pressed; the result is the frame returned and the file state left\<close>
  "map_google_forms fs choices save_clicked df =
     (case load_mapping fs of
        Inl e \<Rightarrow> Inl e
      | Inr saved_mapping \<Rightarrow>
          (case saved_mapping of
             Some (kv # kvs) \<Rightarrow> Inr (rename_columns (kv # kvs) df, fs)
           | _ \<Rightarrow>
               (let mapping = build_mapping choices
                in if save_clicked
                   then Inr (rename_columns mapping df, save_mapping mapping fs)
                   else Inr (df, fs))))"

section \<open>Report generation\<close>

text \<open>
  The report is modelled by the cells written to it, page by page. A cell whose text is
  formatted from computed values is kept with those values instead of their rendering:
  the two averages (printed with two decimals) and the score of a risk line.
\<close>

datatype pdf_line =
    Text string
  | AverageAcademic pyfloat
  | AverageNonAcademic pyfloat
  | RiskLine pyval pynum risk
  | Image chart

fun show_nat :: "nat \<Rightarrow> string" where
  \<comment> \<open>the decimal text of a natural number\<close>
  "show_nat n =
     (if n < 10 then [char_of (48 + n)] else show_nat (n div 10) @ [char_of (48 + n mod 10)])"

declare show_nat.simps [simp del]

definition py_upper_char :: "char \<Rightarrow> char" where
  \<comment> \<open>for the letters of ASCII\<close>
  "py_upper_char c =
     (let n = (of_char c :: nat) in if 97 \<le> n \<and> n \<le> 122 then char_of (n - 32) else c)"

definition py_capitalize :: "string \<Rightarrow> string" where
  "py_capitalize s = (case s of [] \<Rightarrow> [] | c # cs \<Rightarrow> py_upper_char c # py_lower cs)"

definition mean :: "pyfloat list \<Rightarrow> pyfloat" where
  \<comment> \<open>\<open>series.mean()\<close>: NaN entries are skipped; without entries the mean is NaN\<close>
  "mean fs =
     (let xs = filter (\<lambda>f. f \<noteq> NaN) fs
      in if xs = [] then NaN else fscale (foldl fadd (Fin 0) xs) (1 / of_nat (length xs)))"

definition column_mean :: "frame \<Rightarrow> string \<Rightarrow> error + pyfloat" where
  \<comment> \<open>\<open>df[c].astype(float).mean()\<close>\<close>
  "column_mean df c =
     (case column df c of
        None \<Rightarrow> Inl (KeyError c)
      | Some vs \<Rightarrow>
          (case apply_all (\<lambda>v. case py_float v of None \<Rightarrow> Inl ValueError | Some f \<Rightarrow> Inr f) vs of
             Inl e \<Rightarrow> Inl e
           | Inr fs \<Rightarrow> Inr (mean fs)))"

definition summary_statistics :: "frame \<Rightarrow> error + pyfloat \<times> pyfloat" where
  \<comment> \<open>the two assignments at the head of the \<open>try\<close> block\<close>
  "summary_statistics df =
     (case column_mean df ''hours_academic'' of
        Inl e \<Rightarrow> Inl e
      | Inr avg_acad \<Rightarrow>
          (case column_mean df ''hours_non_academic'' of
             Inl e \<Rightarrow> Inl e
           | Inr avg_nonacad \<Rightarrow> Inr (avg_acad, avg_nonacad)))"

definition summary_lines :: "frame \<Rightarrow> pdf_line list" where
  "summary_lines df =
     (case summary_statistics df of
        Inr (avg_acad, avg_nonacad) \<Rightarrow> [AverageAcademic avg_acad, AverageNonAcademic avg_nonacad]
      | Inl e \<Rightarrow> [Text ''Average hours not available''])"

definition risk_line :: "nat \<times> row \<Rightarrow> pdf_line" where
  \<comment> \<open>the body of the loop over \<open>df.iterrows()\<close>\<close>
  "risk_line p =
     (case p of (i, r) \<Rightarrow>
        (case calculate_risk r of (score, risk) \<Rightarrow>
           RiskLine (row_get r ''timestamp'' (Str (''Row '' @ show_nat (i + 1)))) score risk))"

definition chart_page :: "string \<times> chart \<Rightarrow> pdf_line list" where
  "chart_page p = (case p of (key, fig) \<Rightarrow> [Text (py_capitalize key @ '' Chart''), Image fig])"

definition generate_pdf :: "frame \<Rightarrow> (string \<times> chart) list \<Rightarrow> pdf_line list list" where
  \<comment> \<open>the pages of the report, each with its cells in order\<close>
  "generate_pdf df charts =
     ([Text ''Computer Vision Syndrome Survey Report'', Text ''Summary Statistics:'']
        @ summary_lines df
        @ [Text ''Student Risk Summary:'']
        @ map risk_line (iterrows df))
     # map chart_page charts"

fun is_risk_line :: "pdf_line \<Rightarrow> bool" where
  "is_risk_line (RiskLine _ _ _) = True"
| "is_risk_line _ = False"

fun is_average :: "pdf_line \<Rightarrow> bool" where
  "is_average (AverageAcademic _) = True"
| "is_average (AverageNonAcademic _) = True"
| "is_average _ = False"

definition text_hours_frame :: frame where
  \<comment> \<open>two records, the first with an academic hours cell that is not a number\<close>
  "text_hours_frame =
     \<lparr>columns = [''timestamp'', ''hours_academic'', ''hours_non_academic'', ''eye_strain''],
      cells = [[Str ''r1'', Str ''a lot'', Str ''5'', Str ''yes''],
               [Str ''r2'', Str ''2'', Str ''1'', Str ''Sometimes'']]\<rparr>"

definition partial_mapping :: mapping where
  "partial_mapping = [(''Q1'', ''age'')]"

definition survey_frame :: frame where
  "survey_frame =
     \<lparr>columns = [''Q1'', ''sex'', ''Comments''],
      cells = [[Str ''17'', Str ''F'', Str ''none'']]\<rparr>"

definition sample_choices :: "string list" where
  \<comment> \<open>the column \<open>Age\<close> is selected both for \<open>age_group\<close> and for \<open>age\<close>\<close>
  "sample_choices = [''Time'', skip_option, ''Age'', ''Age''] @ replicate 22 skip_option"

section \<open>Notions used to state the properties\<close>

fun num_val :: "pynum \<Rightarrow> rat option" where
  \<comment> \<open>the numeric value of a Python number, when it is finite\<close>
  "num_val (PyInt n) = Some (of_int n)"
| "num_val (PyFloat (Fin q)) = Some q"
| "num_val (PyFloat _) = None"

fun is_py_int :: "pynum \<Rightarrow> bool" where
  "is_py_int (PyInt _) = True"
| "is_py_int (PyFloat _) = False"

definition symptom_hits :: "row \<Rightarrow> string set" where
  \<comment> \<open>the symptom fields whose text is, ignoring case, \<open>yes\<close> or \<open>sometimes\<close>\<close>
  "symptom_hits r =
     {s \<in> set symptoms. \<exists>t. r s = Some (Str t) \<and> py_lower t \<in> {''yes'', ''sometimes''}}"

definition level_of :: "rat \<Rightarrow> risk" where
  "level_of v = (if v < 30 then Low else if v < 60 then Medium else High)"

definition score_in_range :: "pynum \<Rightarrow> bool" where
  "score_in_range s = (case num_val s of Some v \<Rightarrow> 0 \<le> v \<and> v \<le> 100 | None \<Rightarrow> False)"

definition hours_academic :: "row \<Rightarrow> pyfloat option" where
  "hours_academic r = py_float (row_get r ''hours_academic'' (Num (PyInt 0)))"

definition hours_non_academic :: "row \<Rightarrow> pyfloat option" where
  "hours_non_academic r = py_float (row_get r ''hours_non_academic'' (Num (PyInt 0)))"

subsection \<open>Example records\<close>

definition scenario_record :: row where
  "scenario_record = map_of
     [(''hours_academic'', Str ''2''), (''hours_non_academic'', Str ''1''),
      (''eye_strain'', Str ''Yes''), (''blurry_vision'', Str ''No''),
      (''dry_eyes'', Str ''Sometimes''), (''headaches'', Str ''No''),
      (''neck_pain'', Str ''No'')]"

definition negative_hours_record :: row where
  "negative_hours_record = map_of
     [(''hours_academic'', Str ''-0.25''), (''hours_non_academic'', Str ''0''),
      (''eye_strain'', Str ''No''), (''blurry_vision'', Str ''No''),
      (''dry_eyes'', Str ''No''), (''headaches'', Str ''No''),
      (''neck_pain'', Str ''No'')]"

definition unparsable_hours_record :: row where
  "unparsable_hours_record = map_of
     [(''hours_academic'', Str ''abc''), (''hours_non_academic'', Str ''5''),
      (''eye_strain'', Str ''Yes''), (''blurry_vision'', Str ''No''),
      (''dry_eyes'', Str ''No''), (''headaches'', Str ''No''),
      (''neck_pain'', Str ''No'')]"

definition helper_fields :: "string set" where
  \<comment> \<open>the two per-record fields that chart generation adds to the frame\<close>
  "helper_fields = {''break_frequency_numeric'', ''symptom_score''}"

definition sample_frame :: frame where
  "sample_frame =
     \<lparr>columns = [''timestamp'', ''eye_strain'', ''blurry_vision'', ''dry_eyes'', ''headaches'',
                 ''neck_pain'', ''devices'', ''break_frequency''],
      cells =
        [[Str ''r1'', Str ''Yes'', Str ''No'', Str ''Sometimes'', Str ''no'', Str ''YES'',
          Str ''Laptop'', Str ''3 times''],
         [Str ''r2'', Str ''Sometimes'', Str ''No'', Str ''No'', Str ''no'', Str ''yes'',
          Str ''Phone'', Num (PyFloat NaN)],
         [Str ''r3'', Str ''No'', Str ''No'', Str ''No'', Str ''No'', Str ''No'',
          Str ''Phone'', Str ''5+'']]\<rparr>"

definition yes_fields :: "row \<Rightarrow> string set" where
  \<comment> \<open>the symptom fields whose text is, ignoring case, \<open>yes\<close>\<close>
  "yes_fields r = {s \<in> set symptom_cols. \<exists>t. r s = Some (Str t) \<and> py_lower t = ''yes''}"

definition yes_rows :: "frame \<Rightarrow> string \<Rightarrow> nat" where
  \<comment> \<open>the number of records whose field \<open>c\<close> is, ignoring case, \<open>yes\<close>\<close>
  "yes_rows df c =
     length (filter (\<lambda>vs. \<exists>t. row_of df vs c = Some (Str t) \<and> py_lower t = ''yes'') (cells df))"

definition bad_break_frame :: frame where
  \<comment> \<open>the sample frame with a fourth record whose break frequency is not a number\<close>
  "bad_break_frame =
     sample_frame\<lparr>cells := cells sample_frame @
       [[Str ''r4'', Str ''No'', Str ''No'', Str ''No'', Str ''No'', Str ''No'',
         Str ''Tablet'', Str ''rarely'']]\<rparr>"

fun members_text :: "mapping \<Rightarrow> string" where
  \<comment> \<open>the text of the members of a dumped object, from the first key on\<close>
  "members_text [] = []"
| "members_text [kv] = json_member kv"
| "members_text (kv # kvs) = json_member kv @ [CHR '','', CHR 0x0A] @ ''    '' @ members_text kvs"

section \<open>Properties of risk scoring\<close>

lemma distinct_symptoms: "distinct symptoms"
  by (simp add: symptoms_def)

lemma symptom_count_card: "symptom_count r = card (symptom_hits r)"
proof -
  have eq: "symptom_hits r =
      {s. str_lower_in (row_get r s (Str ''No'')) [''yes'', ''sometimes'']} \<inter> set symptoms"
  proof (rule set_eqI)
    fix s
    show "s \<in> symptom_hits r \<longleftrightarrow>
      s \<in> {s. str_lower_in (row_get r s (Str ''No'')) [''yes'', ''sometimes'']} \<inter> set symptoms"
    proof (cases "r s")
      case None
      then show ?thesis
        by (simp add: symptom_hits_def row_get_def py_lower_def py_lower_char_def)
    next
      case (Some v)
      then show ?thesis
        by (cases v) (auto simp: symptom_hits_def row_get_def)
    qed
  qed
  show ?thesis
    unfolding symptom_count_def eq
    by (rule distinct_length_filter [OF distinct_symptoms])
qed

lemma symptom_count_le: "symptom_count r \<le> 5"
proof -
  have "symptom_count r \<le> length symptoms"
    unfolding symptom_count_def by (rule length_filter_le)
  then show ?thesis by (simp add: symptoms_def)
qed


lemma hours_of_failed:
  assumes "hours_academic r = None \<or> hours_non_academic r = None"
  shows "hours_of r = PyInt 0"
  using assms
  by (auto simp: hours_of_def hours_academic_def hours_non_academic_def split: option.splits)

lemma score_finite:
  assumes "hours_of r = PyFloat (Fin h)"
  shows "num_val (fst (calculate_risk r)) = Some (min (h * 10) 50 + 10 * of_nat (symptom_count r))"
  using assms by (simp add: calculate_risk_def Let_def py_min_def fscale_def min_def)

lemma score_failed:
  assumes "hours_of r = PyInt 0"
  shows "fst (calculate_risk r) = PyInt (10 * int (symptom_count r))"
  using assms by (simp add: calculate_risk_def Let_def py_min_def)

lemma level_by_value:
  assumes "num_val (fst (calculate_risk r)) = Some v"
  shows "snd (calculate_risk r) = level_of v"
proof (cases "fst (calculate_risk r)")
  case (PyInt n)
  with assms have v: "v = of_int n" by simp
  have "(of_int n :: rat) < 30 \<longleftrightarrow> n < 30" and "(of_int n :: rat) < 60 \<longleftrightarrow> n < 60"
    by linarith+
  with PyInt v show ?thesis
    by (simp add: calculate_risk_def Let_def level_of_def)
next
  case (PyFloat f)
  with assms have f: "f = Fin v" by (cases f) simp_all
  with PyFloat show ?thesis
    by (simp add: calculate_risk_def Let_def level_of_def)
qed




text \<open>
  Claim C3, as stated, fails: the score need not be an integer and need not lie in
  \<open>[0, 100]\<close>. A record with \<open>hours_academic = "-0.25"\<close> and no symptoms scores the
  float \<open>-2.5\<close>.
\<close>

theorem risk_score_range_counterexample:
  "fst (calculate_risk negative_hours_record) = PyFloat (Fin (- 5 / 2))
   \<and> \<not> is_py_int (fst (calculate_risk negative_hours_record))
   \<and> \<not> score_in_range (fst (calculate_risk negative_hours_record))"
proof -
  have "fst (calculate_risk negative_hours_record) = PyFloat (Fin (- 5 / 2))"
    by code_simp
  then show ?thesis by (simp add: score_in_range_def)
qed

lemma hours_of_parsed:
  assumes "hours_academic r = Some a" and "hours_non_academic r = Some b"
  shows "hours_of r = PyFloat (fadd a b)"
  using assms by (simp add: hours_of_def hours_academic_def hours_non_academic_def)

lemma score_infinite:
  assumes "hours_of r = PyFloat PInf"
  shows "fst (calculate_risk r) = PyInt (50 + 10 * int (symptom_count r))"
  using assms by (simp add: calculate_risk_def Let_def py_min_def fscale_def)

text \<open>
  Claim C3, amended. For every record whose hours fields either fail to convert or
  convert to numbers whose sum is neither NaN nor negative, the score is a number (not
  necessarily an integer) within \<open>[0, 100]\<close>.
\<close>

theorem risk_score_range:
  assumes "hours_academic r = None \<or> hours_non_academic r = None \<or>
    (\<exists>a b. hours_academic r = Some a \<and> hours_non_academic r = Some b \<and>
       fadd a b \<noteq> NaN \<and> \<not> flt (fadd a b) (Fin 0))"
  shows "score_in_range (fst (calculate_risk r))"
proof -
  have n: "symptom_count r \<le> 5" by (rule symptom_count_le)
  consider
      (failed) "hours_academic r = None \<or> hours_non_academic r = None"
    | (parsed) a b where "hours_academic r = Some a" "hours_non_academic r = Some b"
        "fadd a b \<noteq> NaN" "\<not> flt (fadd a b) (Fin 0)"
    using assms by auto
  then show ?thesis
  proof cases
    case failed
    then have "fst (calculate_risk r) = PyInt (10 * int (symptom_count r))"
      by (simp add: hours_of_failed score_failed)
    with n show ?thesis by (simp add: score_in_range_def)
  next
    case parsed
    then have h: "hours_of r = PyFloat (fadd a b)" by (simp add: hours_of_parsed)
    show ?thesis
    proof (cases "fadd a b")
      case (Fin q)
      with parsed(4) have q: "0 \<le> q" by simp
      from h Fin have v: "num_val (fst (calculate_risk r)) =
          Some (min (q * 10) 50 + 10 * of_nat (symptom_count r))"
        by (simp add: score_finite)
      have lo: "0 \<le> min (q * 10) 50" using q by simp
      have hi: "min (q * 10) 50 \<le> 50" by simp
      have m: "(of_nat (symptom_count r) :: rat) \<le> 5" using n by simp
      from v lo hi m show ?thesis by (simp add: score_in_range_def)
    next
      case PInf
      with h have "fst (calculate_risk r) = PyInt (50 + 10 * int (symptom_count r))"
        by (simp add: score_infinite)
      with n show ?thesis by (simp add: score_in_range_def)
    next
      case NInf
      with parsed(4) show ?thesis by simp
    next
      case NaN
      with parsed(3) show ?thesis by simp
    qed
  qed
qed

theorem risk_score_range_witness:
  "hours_academic scenario_record = Some (Fin 2)
   \<and> hours_non_academic scenario_record = Some (Fin 1)
   \<and> score_in_range (fst (calculate_risk scenario_record))"
proof -
  have a: "hours_academic scenario_record = Some (Fin 2)" by code_simp
  have b: "hours_non_academic scenario_record = Some (Fin 1)" by code_simp
  have "fadd (Fin 2) (Fin 1) \<noteq> NaN \<and> \<not> flt (fadd (Fin 2) (Fin 1)) (Fin 0)"
    by simp
  with a b have "\<exists>x y. hours_academic scenario_record = Some x \<and>
      hours_non_academic scenario_record = Some y \<and>
      fadd x y \<noteq> NaN \<and> \<not> flt (fadd x y) (Fin 0)"
    by blast
  then have "score_in_range (fst (calculate_risk scenario_record))"
    using risk_score_range [of scenario_record] by blast
  with a b show ?thesis by blast
qed

text \<open>
  Claim C4. When either hours field fails to convert, the hours of the record are the
  integer 0 and so is the hours contribution, whatever the other field holds; the
  function still returns, and the score is ten points for each symptom field holding
  \<open>yes\<close> or \<open>sometimes\<close>.
\<close>

theorem hours_parse_failure:
  assumes "hours_academic r = None \<or> hours_non_academic r = None"
  shows "hours_of r = PyInt 0
    \<and> py_min (num_mul (hours_of r) (PyInt 10)) (PyInt 50) = PyInt 0
    \<and> fst (calculate_risk r) = PyInt (10 * int (card (symptom_hits r)))
    \<and> snd (calculate_risk r) = level_of (of_nat (10 * card (symptom_hits r)))"
proof -
  have h: "hours_of r = PyInt 0" using assms by (rule hours_of_failed)
  then have p: "py_min (num_mul (hours_of r) (PyInt 10)) (PyInt 50) = PyInt 0"
    by (simp add: py_min_def)
  have s: "fst (calculate_risk r) = PyInt (10 * int (card (symptom_hits r)))"
    using h by (simp add: score_failed symptom_count_card)
  then have "num_val (fst (calculate_risk r)) = Some (of_nat (10 * card (symptom_hits r)))"
    by simp
  then have "snd (calculate_risk r) = level_of (of_nat (10 * card (symptom_hits r)))"
    by (rule level_by_value)
  with h p s show ?thesis by blast
qed

theorem hours_parse_failure_witness:
  "hours_academic unparsable_hours_record = None
   \<and> hours_non_academic unparsable_hours_record = Some (Fin 5)
   \<and> hours_of unparsable_hours_record = PyInt 0
   \<and> calculate_risk unparsable_hours_record = (PyInt 10, Low)"
proof -
  have a: "hours_academic unparsable_hours_record = None" by code_simp
  have b: "hours_non_academic unparsable_hours_record = Some (Fin 5)" by code_simp
  have c: "calculate_risk unparsable_hours_record = (PyInt 10, Low)" by code_simp
  have "hours_of unparsable_hours_record = PyInt 0"
    using hours_parse_failure [of unparsable_hours_record] a by blast
  with a b c show ?thesis by blast
qed


section \<open>Properties of chart generation\<close>

lemma map_of_zip_map2:
  "map_of (zip ks (map2 g ks vs)) k = map_option (g k) (map_of (zip ks vs) k)"
proof (induction ks arbitrary: vs)
  case Nil
  then show ?case by simp
next
  case (Cons a ks)
  then show ?case by (cases vs) auto
qed

lemma map_of_snoc_other:
  "k \<noteq> c \<Longrightarrow> map_of (ps @ [(c, v)]) k = map_of ps k"
  by (simp add: map_add_def split: option.splits)

lemma apply_all_length: "apply_all f xs = Inr ys \<Longrightarrow> length ys = length xs"
  by (induction xs arbitrary: ys) (auto split: sum.splits)

lemma apply_all_fails: "x \<in> set xs \<Longrightarrow> f x = Inl e \<Longrightarrow> \<exists>e'. apply_all f xs = Inl e'"
  by (induction xs) (auto split: sum.splits)

lemma set_column_length:
  assumes "length vals = length (cells df)"
  shows "length (cells (set_column df c vals)) = length (cells df)"
  using assms by (simp add: set_column_def)

lemma set_column_wf:
  assumes "wf_frame df" and "length vals = length (cells df)"
  shows "wf_frame (set_column df c vals)"
  using assms
  by (auto simp: wf_frame_def set_column_def set_zip)

lemma set_column_other:
  assumes "wf_frame df" and "length vals = length (cells df)"
    and "i < length (cells df)" and "k \<noteq> c"
  shows "row_of (set_column df c vals) (cells (set_column df c vals) ! i) k
         = row_of df (cells df ! i) k"
proof -
  have len: "length (cells df ! i) = length (columns df)"
    using assms(1,3) by (simp add: wf_frame_def)
  show ?thesis
  proof (cases "c \<in> set (columns df)")
    case True
    then show ?thesis
      using assms(2-4) by (cases "map_of (zip (columns df) (cells df ! i)) k") (simp_all add: set_column_def row_of_def map_of_zip_map2)
  next
    case False
    then show ?thesis
      using assms(2-4) len by (simp add: set_column_def row_of_def map_of_snoc_other del: map_of_append)
  qed
qed

lemma set_column_columns_filter:
  assumes "c \<in> H"
  shows "filter (\<lambda>k. k \<notin> H) (columns (set_column df c vals)) = filter (\<lambda>k. k \<notin> H) (columns df)"
  using assms by (simp add: set_column_def)

lemma set_column_has: "c \<in> set (columns (set_column df c vals))"
  by (simp add: set_column_def)

lemma set_column_keeps: "k \<in> set (columns df) \<Longrightarrow> k \<in> set (columns (set_column df c vals))"
  by (simp add: set_column_def)


lemma column_length: "column df c = Some vs \<Longrightarrow> length vs = length (cells df)"
  by (auto simp: column_def split: if_splits)

lemma column_None: "column df c = None \<longleftrightarrow> c \<notin> set (columns df)"
  by (simp add: column_def)

lemma generate_charts_outcome:
  "(snd (generate_charts df) = df \<and>
      (\<forall>ch. fst (generate_charts df) = Inr ch \<longrightarrow> ''break_frequency'' \<notin> set (columns df)))
   \<or> (\<exists>v1 v2. length v1 = length (cells df) \<and> length v2 = length (cells df) \<and>
        snd (generate_charts df) =
          set_column (set_column df ''break_frequency_numeric'' v1) ''symptom_score'' v2)"
proof (cases "symptom_counts df symptom_cols")
  case (Inl e)
  then show ?thesis by (simp add: generate_charts_def)
next
  case sc: (Inr sc)
  show ?thesis
  proof (cases "column df ''devices''")
    case None
    with sc show ?thesis by (simp add: generate_charts_def)
  next
    case dv: (Some dv)
    show ?thesis
    proof (cases "column df ''break_frequency''")
      case None
      then have nb: "''break_frequency'' \<notin> set (columns df)" by (simp add: column_None)
      from sc dv None nb show ?thesis by (simp add: generate_charts_def)
    next
      case bf: (Some bf)
      show ?thesis
      proof (cases "apply_all break_frequency_numeric bf")
        case (Inl e)
        with sc dv bf show ?thesis by (simp add: generate_charts_def)
      next
        case (Inr nums)
        then have n: "length nums = length (cells df)"
          using apply_all_length [of break_frequency_numeric bf nums] column_length [OF bf]
          by simp
        let ?v1 = "map (\<lambda>n. Num (PyInt n)) nums"
        let ?df1 = "set_column df ''break_frequency_numeric'' ?v1"
        let ?v2 = "map (\<lambda>n. Num (PyInt (int n)))
                     (map (\<lambda>vs. symptom_score (row_of ?df1 vs)) (cells ?df1))"
        have l1: "length ?v1 = length (cells df)" using n by simp
        have l2: "length ?v2 = length (cells df)"
          using set_column_length [OF l1] by simp
        have "snd (generate_charts df) = set_column ?df1 ''symptom_score'' ?v2"
          using sc dv bf Inr by (simp add: generate_charts_def Let_def)
        with l1 l2 show ?thesis by blast
      qed
    qed
  qed
qed

text \<open>
  Claim C8. Whatever the outcome of chart generation, the frame it leaves has the same
  records, the same columns apart from the two helper fields, and in every record every
  field other than the two helper fields holds what it held before; when the charts are
  produced and the frame has a \<open>break_frequency\<close> column, both helper fields are present.
\<close>

theorem generate_charts_frame:
  assumes "wf_frame df"
  shows "wf_frame (snd (generate_charts df))
    \<and> length (cells (snd (generate_charts df))) = length (cells df)
    \<and> filter (\<lambda>k. k \<notin> helper_fields) (columns (snd (generate_charts df)))
        = filter (\<lambda>k. k \<notin> helper_fields) (columns df)
    \<and> (\<forall>i k. i < length (cells df) \<and> k \<notin> helper_fields \<longrightarrow>
          row_of (snd (generate_charts df)) (cells (snd (generate_charts df)) ! i) k
            = row_of df (cells df ! i) k)
    \<and> (\<forall>ch. fst (generate_charts df) = Inr ch \<and> ''break_frequency'' \<in> set (columns df) \<longrightarrow>
          helper_fields \<subseteq> set (columns (snd (generate_charts df))))"
proof -
  from generate_charts_outcome [of df] show ?thesis
  proof (elim disjE exE conjE)
    assume "snd (generate_charts df) = df"
      and "\<forall>ch. fst (generate_charts df) = Inr ch \<longrightarrow> ''break_frequency'' \<notin> set (columns df)"
    with assms show ?thesis by auto
  next
    fix v1 v2
    assume l1: "length v1 = length (cells df)" and l2: "length v2 = length (cells df)"
      and eq: "snd (generate_charts df) =
          set_column (set_column df ''break_frequency_numeric'' v1) ''symptom_score'' v2"
    let ?df1 = "set_column df ''break_frequency_numeric'' v1"
    have c1: "length (cells ?df1) = length (cells df)" by (rule set_column_length [OF l1])
    have w1: "wf_frame ?df1" by (rule set_column_wf [OF assms l1])
    have l2': "length v2 = length (cells ?df1)" using l2 c1 by simp
    have w2: "wf_frame (snd (generate_charts df))"
      unfolding eq by (rule set_column_wf [OF w1 l2'])
    have c2: "length (cells (snd (generate_charts df))) = length (cells df)"
      unfolding eq using set_column_length [OF l2'] c1 by simp
    have "filter (\<lambda>k. k \<notin> helper_fields) (columns (snd (generate_charts df)))
        = filter (\<lambda>k. k \<notin> helper_fields) (columns ?df1)"
      unfolding eq by (rule set_column_columns_filter) (simp add: helper_fields_def)
    also have "\<dots> = filter (\<lambda>k. k \<notin> helper_fields) (columns df)"
      by (rule set_column_columns_filter) (simp add: helper_fields_def)
    finally have f: "filter (\<lambda>k. k \<notin> helper_fields) (columns (snd (generate_charts df)))
        = filter (\<lambda>k. k \<notin> helper_fields) (columns df)" .
    have r: "row_of (snd (generate_charts df)) (cells (snd (generate_charts df)) ! i) k
            = row_of df (cells df ! i) k"
      if "i < length (cells df)" and "k \<notin> helper_fields" for i k
    proof -
      from that(2) have k1: "k \<noteq> ''break_frequency_numeric''" and k2: "k \<noteq> ''symptom_score''"
        by (auto simp: helper_fields_def)
      have i1: "i < length (cells ?df1)" using that(1) c1 by simp
      have "row_of (snd (generate_charts df)) (cells (snd (generate_charts df)) ! i) k
          = row_of ?df1 (cells ?df1 ! i) k"
        unfolding eq by (rule set_column_other [OF w1 l2' i1 k2])
      also have "\<dots> = row_of df (cells df ! i) k"
        by (rule set_column_other [OF assms l1 that(1) k1])
      finally show ?thesis .
    qed
    have h: "helper_fields \<subseteq> set (columns (snd (generate_charts df)))"
      unfolding eq helper_fields_def
      by (simp add: set_column_has set_column_keeps)
    from w2 c2 f r h show ?thesis by blast
  qed
qed


theorem generate_charts_frame_witness:
  "wf_frame sample_frame
   \<and> fst (generate_charts sample_frame) \<noteq> Inl ValueError
   \<and> row_of (snd (generate_charts sample_frame))
        (cells (snd (generate_charts sample_frame)) ! 0) ''devices'' = Some (Str ''Laptop'')
   \<and> helper_fields \<subseteq> set (columns (snd (generate_charts sample_frame)))"
proof -
  have w: "wf_frame sample_frame" by code_simp
  have ok: "fst (generate_charts sample_frame) =
      Inr [(''symptoms'', Bar [(''eye_strain'', 1), (''blurry_vision'', 0), (''dry_eyes'', 0),
                              (''headaches'', 0), (''neck_pain'', 2)]),
           (''devices'', Pie [(Str ''Phone'', 2), (Str ''Laptop'', 1)]),
           (''breaks'', Scatter [(3, 2), (0, 1), (5, 0)])]"
    by code_simp
  have bf: "''break_frequency'' \<in> set (columns sample_frame)" by code_simp
  have i: "0 < length (cells sample_frame)" by code_simp
  have k: "''devices'' \<notin> helper_fields" by (simp add: helper_fields_def)
  have old: "row_of sample_frame (cells sample_frame ! 0) ''devices'' = Some (Str ''Laptop'')"
    by code_simp
  note fr = generate_charts_frame [OF w]
  from fr i k have "row_of (snd (generate_charts sample_frame))
        (cells (snd (generate_charts sample_frame)) ! 0) ''devices''
      = row_of sample_frame (cells sample_frame ! 0) ''devices''"
    by blast
  moreover from fr ok bf
  have "helper_fields \<subseteq> set (columns (snd (generate_charts sample_frame)))"
    by blast
  ultimately show ?thesis using w ok old by simp
qed


lemma symptom_cols_eq: "symptom_cols = symptoms"
  by (simp add: symptom_cols_def symptoms_def)

lemma lower_eq_yes_cell:
  "lower_eq_yes (row_get r c (Num (PyFloat NaN))) \<longleftrightarrow> (\<exists>t. r c = Some (Str t) \<and> py_lower t = ''yes'')"
proof (cases "r c")
  case None
  then show ?thesis by (simp add: row_get_def)
next
  case (Some v)
  then show ?thesis by (cases v) (simp_all add: row_get_def)
qed

lemma str_lower_in_yes:
  "str_lower_in (row_get r s (Str ''No'')) [''yes''] \<longleftrightarrow> (\<exists>t. r s = Some (Str t) \<and> py_lower t = ''yes'')"
proof (cases "r s")
  case None
  then show ?thesis by (simp add: row_get_def py_lower_def py_lower_char_def)
next
  case (Some v)
  then show ?thesis by (cases v) (simp_all add: row_get_def)
qed

lemma symptom_score_card: "symptom_score r = card (yes_fields r)"
proof -
  have "distinct symptom_cols" by (simp add: symptom_cols_def)
  then have "length (filter (\<lambda>s. \<exists>t. r s = Some (Str t) \<and> py_lower t = ''yes'') symptom_cols)
      = card ({s. \<exists>t. r s = Some (Str t) \<and> py_lower t = ''yes''} \<inter> set symptom_cols)"
    by (rule distinct_length_filter)
  moreover have "{s. \<exists>t. r s = Some (Str t) \<and> py_lower t = ''yes''} \<inter> set symptom_cols = yes_fields r"
    by (auto simp: yes_fields_def)
  ultimately show ?thesis by (simp add: symptom_score_def str_lower_in_yes)
qed

lemma yes_count_eq: "yes_count df c = Inr n \<Longrightarrow> n = yes_rows df c"
  by (auto simp: yes_count_def column_def yes_rows_def filter_map o_def lower_eq_yes_cell
      split: if_splits)

lemma symptom_counts_eq:
  "symptom_counts df cs = Inr ns \<Longrightarrow> ns = map (\<lambda>c. (c, yes_rows df c)) cs"
  by (induction cs arbitrary: ns) (auto split: sum.splits dest: yes_count_eq)

lemma yes_fields_cong:
  assumes "\<And>s. s \<in> set symptom_cols \<Longrightarrow> r s = r' s"
  shows "yes_fields r = yes_fields r'"
  using assms by (auto simp: yes_fields_def)

lemma sometimes_not_yes: "py_lower t = ''sometimes'' \<Longrightarrow> py_lower t \<noteq> ''yes''"
  by simp

lemma yes_fields_subset: "yes_fields r \<subseteq> symptom_hits r"
  by (auto simp: yes_fields_def symptom_hits_def symptom_cols_eq)

lemma sometimes_counts_less:
  assumes "s \<in> set symptom_cols" and "r s = Some (Str t)" and "py_lower t = ''sometimes''"
  shows "s \<notin> yes_fields r" and "s \<in> symptom_hits r" and "symptom_score r < symptom_count r"
proof -
  show n: "s \<notin> yes_fields r" using assms by (simp add: yes_fields_def)
  show h: "s \<in> symptom_hits r" using assms by (simp add: symptom_hits_def symptom_cols_eq)
  have "finite (symptom_hits r)" by (simp add: symptom_hits_def)
  moreover have "yes_fields r \<subset> symptom_hits r" using n h yes_fields_subset by blast
  ultimately have "card (yes_fields r) < card (symptom_hits r)" by (rule psubset_card_mono)
  then show "symptom_score r < symptom_count r"
    by (simp add: symptom_score_card symptom_count_card)
qed


lemma generate_charts_bar:
  assumes "fst (generate_charts df) = Inr ch"
  shows "\<exists>sc. symptom_counts df symptom_cols = Inr sc \<and> map_of ch ''symptoms'' = Some (Bar sc)"
proof (cases "symptom_counts df symptom_cols")
  case (Inl e)
  with assms show ?thesis by (simp add: generate_charts_def)
next
  case sc: (Inr sc)
  show ?thesis
  proof (cases "column df ''devices''")
    case None
    with sc assms show ?thesis by (simp add: generate_charts_def)
  next
    case dv: (Some dv)
    show ?thesis
    proof (cases "column df ''break_frequency''")
      case None
      with sc dv assms have "ch = [(''symptoms'', Bar sc), (''devices'', Pie (value_counts dv))]"
        by (simp add: generate_charts_def)
      with sc show ?thesis by simp
    next
      case bf: (Some bf)
      show ?thesis
      proof (cases "apply_all break_frequency_numeric bf")
        case (Inl e)
        with sc dv bf assms show ?thesis by (simp add: generate_charts_def)
      next
        case (Inr nums)
        with sc dv bf assms have "\<exists>x. ch = [(''symptoms'', Bar sc),
            (''devices'', Pie (value_counts dv)), (''breaks'', x)]"
          by (auto simp: generate_charts_def Let_def)
        then obtain x where "ch = [(''symptoms'', Bar sc),
            (''devices'', Pie (value_counts dv)), (''breaks'', x)]" ..
        with sc show ?thesis by simp
      qed
    qed
  qed
qed

lemma generate_charts_scatter:
  assumes "fst (generate_charts df) = Inr ch" and bf: "column df ''break_frequency'' = Some bf"
  shows "\<exists>nums. apply_all break_frequency_numeric bf = Inr nums \<and>
     map_of ch ''breaks'' =
       Some (Scatter (zip nums
          (map (\<lambda>vs. symptom_score
                  (row_of (set_column df ''break_frequency_numeric''
                             (map (\<lambda>n. Num (PyInt n)) nums)) vs))
             (cells (set_column df ''break_frequency_numeric''
                       (map (\<lambda>n. Num (PyInt n)) nums))))))"
proof (cases "symptom_counts df symptom_cols")
  case (Inl e)
  with assms show ?thesis by (simp add: generate_charts_def)
next
  case sc: (Inr sc)
  show ?thesis
  proof (cases "column df ''devices''")
    case None
    with sc assms show ?thesis by (simp add: generate_charts_def)
  next
    case dv: (Some dv)
    show ?thesis
    proof (cases "apply_all break_frequency_numeric bf")
      case (Inl e)
      with sc dv bf assms show ?thesis by (simp add: generate_charts_def)
    next
      case (Inr nums)
      with sc dv bf assms have "ch = [(''symptoms'', Bar sc),
            (''devices'', Pie (value_counts dv)),
            (''breaks'', Scatter (zip nums
               (map (\<lambda>vs. symptom_score
                  (row_of (set_column df ''break_frequency_numeric''
                             (map (\<lambda>n. Num (PyInt n)) nums)) vs))
                 (cells (set_column df ''break_frequency_numeric''
                       (map (\<lambda>n. Num (PyInt n)) nums))))))]"
        by (simp add: generate_charts_def Let_def)
      then have "map_of ch ''breaks'' =
       Some (Scatter (zip nums
          (map (\<lambda>vs. symptom_score
                  (row_of (set_column df ''break_frequency_numeric''
                             (map (\<lambda>n. Num (PyInt n)) nums)) vs))
             (cells (set_column df ''break_frequency_numeric''
                       (map (\<lambda>n. Num (PyInt n)) nums))))))"
        by simp
      with Inr show ?thesis by blast
    qed
  qed
qed

lemma scatter_scores:
  assumes "wf_frame df" and "length v1 = length (cells df)"
  shows "map (\<lambda>vs. symptom_score (row_of (set_column df ''break_frequency_numeric'' v1) vs))
           (cells (set_column df ''break_frequency_numeric'' v1))
         = map (\<lambda>vs. card (yes_fields (row_of df vs))) (cells df)"
proof (rule nth_equalityI)
  let ?df1 = "set_column df ''break_frequency_numeric'' v1"
  have c1: "length (cells ?df1) = length (cells df)"
    by (rule set_column_length [OF assms(2)])
  then show "length (map (\<lambda>vs. symptom_score (row_of ?df1 vs)) (cells ?df1))
      = length (map (\<lambda>vs. card (yes_fields (row_of df vs))) (cells df))"
    by simp
  fix i
  assume "i < length (map (\<lambda>vs. symptom_score (row_of ?df1 vs)) (cells ?df1))"
  then have i: "i < length (cells df)" using c1 by simp
  have "yes_fields (row_of ?df1 (cells ?df1 ! i)) = yes_fields (row_of df (cells df ! i))"
  proof (rule yes_fields_cong)
    fix s :: string
    assume "s \<in> set symptom_cols"
    then have "s \<noteq> ''break_frequency_numeric''" by (auto simp: symptom_cols_def)
    then show "row_of ?df1 (cells ?df1 ! i) s = row_of df (cells df ! i) s"
      by (rule set_column_other [OF assms i])
  qed
  then show "map (\<lambda>vs. symptom_score (row_of ?df1 vs)) (cells ?df1) ! i
      = map (\<lambda>vs. card (yes_fields (row_of df vs))) (cells df) ! i"
    using i c1 by (simp add: symptom_score_card)
qed

text \<open>
  Claim C10. When chart generation succeeds, the bar chart gives for each symptom column
  the number of records whose cell is \<open>yes\<close> in any letter case, and each point of the
  scatter plot carries the number of symptom fields of its record that are \<open>yes\<close> in any
  letter case. A symptom cell that reads \<open>sometimes\<close> in any letter case is counted by
  neither, although it is one of the fields that \<open>calculate_risk\<close> counts (ten points
  each): for such a record the scatter count is smaller than the count of the risk score.
\<close>

theorem charts_count_yes_only:
  assumes "wf_frame df" and "fst (generate_charts df) = Inr ch"
  shows "map_of ch ''symptoms'' = Some (Bar (map (\<lambda>c. (c, yes_rows df c)) symptom_cols))
    \<and> (''break_frequency'' \<in> set (columns df) \<longrightarrow>
         (\<exists>nums. length nums = length (cells df) \<and>
            map_of ch ''breaks'' =
              Some (Scatter (zip nums (map (\<lambda>vs. card (yes_fields (row_of df vs))) (cells df))))))
    \<and> (\<forall>r s t. s \<in> set symptom_cols \<and> r s = Some (Str t) \<and> py_lower t = ''sometimes'' \<longrightarrow>
         \<not> lower_eq_yes (Str t) \<and> s \<notin> yes_fields r \<and> s \<in> symptom_hits r \<and>
         symptom_score r < symptom_count r)"
proof -
  from generate_charts_bar [OF assms(2)] obtain sc where
    sc: "symptom_counts df symptom_cols = Inr sc" and
    b: "map_of ch ''symptoms'' = Some (Bar sc)"
    by blast
  have bar: "map_of ch ''symptoms'' = Some (Bar (map (\<lambda>c. (c, yes_rows df c)) symptom_cols))"
    using b symptom_counts_eq [OF sc] by simp
  have scatter: "\<exists>nums. length nums = length (cells df) \<and>
            map_of ch ''breaks'' =
              Some (Scatter (zip nums (map (\<lambda>vs. card (yes_fields (row_of df vs))) (cells df))))"
    if "''break_frequency'' \<in> set (columns df)"
  proof -
    from that obtain bf where bf: "column df ''break_frequency'' = Some bf"
      by (simp add: column_def)
    from generate_charts_scatter [OF assms(2) bf] obtain nums where
      nums: "apply_all break_frequency_numeric bf = Inr nums" and
      m: "map_of ch ''breaks'' =
       Some (Scatter (zip nums
          (map (\<lambda>vs. symptom_score
                  (row_of (set_column df ''break_frequency_numeric''
                             (map (\<lambda>n. Num (PyInt n)) nums)) vs))
             (cells (set_column df ''break_frequency_numeric''
                       (map (\<lambda>n. Num (PyInt n)) nums))))))"
      by blast
    have n: "length nums = length (cells df)"
      using apply_all_length [OF nums] column_length [OF bf] by simp
    then have l1: "length (map (\<lambda>n. Num (PyInt n)) nums) = length (cells df)" by simp
    have "map_of ch ''breaks'' =
        Some (Scatter (zip nums (map (\<lambda>vs. card (yes_fields (row_of df vs))) (cells df))))"
      using m unfolding scatter_scores [OF assms(1) l1] .
    with n show ?thesis by blast
  qed
  have some: "\<not> lower_eq_yes (Str t) \<and> s \<notin> yes_fields r \<and> s \<in> symptom_hits r \<and>
         symptom_score r < symptom_count r"
    if "s \<in> set symptom_cols \<and> r s = Some (Str t) \<and> py_lower t = ''sometimes''"
    for r :: row and s t
  proof -
    from that have 1: "s \<in> set symptom_cols" and 2: "r s = Some (Str t)"
      and 3: "py_lower t = ''sometimes''" by blast+
    from 3 have "\<not> lower_eq_yes (Str t)" by simp
    with sometimes_counts_less [where s = s and r = r and t = t, OF 1 2 3]
    show ?thesis by blast
  qed
  from bar scatter some show ?thesis by blast
qed

theorem charts_count_yes_only_witness:
  "wf_frame sample_frame
   \<and> yes_rows sample_frame ''eye_strain'' = 1
   \<and> row_of sample_frame (cells sample_frame ! 1) ''eye_strain'' = Some (Str ''Sometimes'')
   \<and> symptom_score (row_of sample_frame (cells sample_frame ! 1))
       < symptom_count (row_of sample_frame (cells sample_frame ! 1))"
proof -
  have w: "wf_frame sample_frame" by code_simp
  have ok: "fst (generate_charts sample_frame) =
      Inr [(''symptoms'', Bar [(''eye_strain'', 1), (''blurry_vision'', 0), (''dry_eyes'', 0),
                              (''headaches'', 0), (''neck_pain'', 2)]),
           (''devices'', Pie [(Str ''Phone'', 2), (Str ''Laptop'', 1)]),
           (''breaks'', Scatter [(3, 2), (0, 1), (5, 0)])]"
    by code_simp
  note t = charts_count_yes_only [OF w ok]
  from t have "Some (Bar [(''eye_strain'', 1), (''blurry_vision'', 0), (''dry_eyes'', 0),
                          (''headaches'', 0), (''neck_pain'', 2)])
      = Some (Bar (map (\<lambda>c. (c, yes_rows sample_frame c)) symptom_cols))"
    by simp
  then have y: "yes_rows sample_frame ''eye_strain'' = 1"
    by (simp add: symptom_cols_def)
  have s: "''eye_strain'' \<in> set symptom_cols" by (simp add: symptom_cols_def)
  have c: "row_of sample_frame (cells sample_frame ! 1) ''eye_strain'' = Some (Str ''Sometimes'')"
    by code_simp
  have l: "py_lower ''Sometimes'' = ''sometimes''" by code_simp
  from t s c l
  have "symptom_score (row_of sample_frame (cells sample_frame ! 1))
       < symptom_count (row_of sample_frame (cells sample_frame ! 1))"
    by blast
  with w y c show ?thesis by blast
qed

text \<open>
  Claim C9. The conversion of a break frequency gives 0 for a missing value (NaN). For a
  value that is present but whose text, with \<open>+\<close> and \<open>times\<close> removed and stripped, is
  not accepted as a base-10 integer literal, the conversion raises: chart generation on a
  frame holding such a record ends in an exception, which nothing catches, and leaves the
  frame as it was.
\<close>

theorem break_frequency_unguarded:
  "break_frequency_numeric (Num (PyFloat NaN)) = Inr 0
   \<and> (\<forall>vs v. ''break_frequency'' \<in> set (columns df) \<and> vs \<in> set (cells df) \<and>
         row_of df vs ''break_frequency'' = Some v \<and> \<not> py_isna v \<and> cleaned_int v = None \<longrightarrow>
         (\<exists>e. generate_charts df = (Inl e, df)))"
proof (intro conjI allI impI)
  show "break_frequency_numeric (Num (PyFloat NaN)) = Inr 0"
    by (simp add: break_frequency_numeric_def py_isna_def)
next
  fix vs v
  assume a: "''break_frequency'' \<in> set (columns df) \<and> vs \<in> set (cells df) \<and>
         row_of df vs ''break_frequency'' = Some v \<and> \<not> py_isna v \<and> cleaned_int v = None"
  let ?bf = "map (\<lambda>vs. row_get (row_of df vs) ''break_frequency'' (Num (PyFloat NaN))) (cells df)"
  have bf: "column df ''break_frequency'' = Some ?bf"
    using a by (simp add: column_def)
  have "v \<in> set ?bf"
  proof -
    have "row_get (row_of df vs) ''break_frequency'' (Num (PyFloat NaN)) = v"
      using a by (simp add: row_get_def)
    with a show ?thesis by force
  qed
  moreover have "break_frequency_numeric v = Inl ValueError"
    using a by (simp add: break_frequency_numeric_def)
  ultimately obtain e where e: "apply_all break_frequency_numeric ?bf = Inl e"
    using apply_all_fails [of v ?bf break_frequency_numeric ValueError] by blast
  show "\<exists>e. generate_charts df = (Inl e, df)"
  proof (cases "symptom_counts df symptom_cols")
    case (Inl e')
    then show ?thesis by (simp add: generate_charts_def)
  next
    case sc: (Inr sc)
    show ?thesis
    proof (cases "column df ''devices''")
      case None
      with sc show ?thesis by (simp add: generate_charts_def)
    next
      case (Some dv)
      with sc bf e show ?thesis by (simp add: generate_charts_def)
    qed
  qed
qed

theorem break_frequency_unguarded_witness:
  "''break_frequency'' \<in> set (columns bad_break_frame)
   \<and> row_of bad_break_frame (cells bad_break_frame ! 3) ''break_frequency'' = Some (Str ''rarely'')
   \<and> cleaned_int (Str ''rarely'') = None
   \<and> (\<exists>e. generate_charts bad_break_frame = (Inl e, bad_break_frame))"
proof -
  have c: "''break_frequency'' \<in> set (columns bad_break_frame)" by code_simp
  have m: "cells bad_break_frame ! 3 \<in> set (cells bad_break_frame)" by code_simp
  have r: "row_of bad_break_frame (cells bad_break_frame ! 3) ''break_frequency''
      = Some (Str ''rarely'')"
    by code_simp
  have n: "\<not> py_isna (Str ''rarely'')" by (simp add: py_isna_def)
  have i: "cleaned_int (Str ''rarely'') = None" by code_simp
  from break_frequency_unguarded [of bad_break_frame] c m r n i
  have "\<exists>e. generate_charts bad_break_frame = (Inl e, bad_break_frame)"
    by blast
  with c r i show ?thesis by blast
qed


section \<open>Properties of the column mapping\<close>

lemma assign_choice_distinct:
  "distinct (map fst m) \<Longrightarrow> distinct (map fst (assign_choice p m))"
  by (cases p) (simp add: assign_choice_def distinct_update)

lemma fold_assign_distinct:
  "distinct (map fst m) \<Longrightarrow> distinct (map fst (fold assign_choice ps m))"
  by (induction ps arbitrary: m) (simp_all add: assign_choice_distinct)

lemma fold_assign_other:
  assumes "\<forall>p \<in> set ps. snd p \<noteq> c"
  shows "map_of (fold assign_choice ps m) c = map_of m c"
  using assms
proof (induction ps arbitrary: m)
  case Nil
  then show ?case by simp
next
  case (Cons p ps)
  obtain s ch where p: "p = (s, ch)" by (cases p)
  with Cons.prems have "ch \<noteq> c" by auto
  then have "map_of (assign_choice p m) c = map_of m c"
    by (simp add: p assign_choice_def update_conv')
  with Cons show ?case by simp
qed

lemma fold_assign_last:
  assumes "c \<noteq> skip_option" and "\<forall>p \<in> set qs. snd p \<noteq> c"
  shows "map_of (fold assign_choice (ps @ (s, c) # qs) m) c = Some s"
proof -
  have "map_of (fold assign_choice (ps @ (s, c) # qs) m) c
      = map_of (assign_choice (s, c) (fold assign_choice ps m)) c"
    using assms(2) by (simp add: fold_assign_other)
  also have "\<dots> = Some s"
    using assms(1) by (simp add: assign_choice_def update_conv')
  finally show ?thesis .
qed

text \<open>
  Claim C6. The mapping built interactively has distinct keys, its keys being source
  columns, so a source column is mapped to one canonical field at most; and a source
  column selected for several canonical fields is mapped to the last of them, the one
  after which it is not selected again.
\<close>

theorem build_mapping_keys_unique:
  "distinct (map fst (build_mapping choices))
   \<and> (\<forall>j. j < length choices \<and> j < length STANDARD_COLUMNS \<and> choices ! j \<noteq> skip_option \<and>
          (\<forall>k. j < k \<and> k < length choices \<longrightarrow> choices ! k \<noteq> choices ! j) \<longrightarrow>
        map_of (build_mapping choices) (choices ! j) = Some (STANDARD_COLUMNS ! j))"
proof (intro conjI allI impI)
  show "distinct (map fst (build_mapping choices))"
    unfolding build_mapping_def by (rule fold_assign_distinct) simp
next
  fix j
  assume a: "j < length choices \<and> j < length STANDARD_COLUMNS \<and> choices ! j \<noteq> skip_option \<and>
          (\<forall>k. j < k \<and> k < length choices \<longrightarrow> choices ! k \<noteq> choices ! j)"
  let ?zs = "zip STANDARD_COLUMNS choices"
  have j: "j < length ?zs" using a by simp
  then have split: "?zs = take j ?zs @ (STANDARD_COLUMNS ! j, choices ! j) # drop (Suc j) ?zs"
    using id_take_nth_drop [of j ?zs] by simp
  have later: "\<forall>p \<in> set (drop (Suc j) ?zs). snd p \<noteq> choices ! j"
  proof
    fix p
    assume "p \<in> set (drop (Suc j) ?zs)"
    then obtain i where i: "i < length (drop (Suc j) ?zs)" and p: "p = drop (Suc j) ?zs ! i"
      by (auto simp: in_set_conv_nth)
    from i have k: "Suc j + i < length ?zs" by (simp add: less_diff_conv add.commute)
    then have "p = ?zs ! (Suc j + i)" using p by simp
    with k have "snd p = choices ! (Suc j + i)" by simp
    moreover from k have "Suc j + i < length choices" by simp
    ultimately show "snd p \<noteq> choices ! j" using a by auto
  qed
  have "map_of (fold assign_choice
          (take j ?zs @ (STANDARD_COLUMNS ! j, choices ! j) # drop (Suc j) ?zs) [])
          (choices ! j) = Some (STANDARD_COLUMNS ! j)"
    using a later by (intro fold_assign_last) auto
  with split show "map_of (build_mapping choices) (choices ! j) = Some (STANDARD_COLUMNS ! j)"
    unfolding build_mapping_def by simp
qed

theorem build_mapping_keys_unique_witness:
  "sample_choices ! 2 = ''Age'' \<and> sample_choices ! 3 = ''Age''
   \<and> STANDARD_COLUMNS ! 2 = ''age_group'' \<and> STANDARD_COLUMNS ! 3 = ''age''
   \<and> distinct (map fst (build_mapping sample_choices))
   \<and> map_of (build_mapping sample_choices) ''Age'' = Some ''age''"
proof -
  have c2: "sample_choices ! 2 = ''Age''" and c3: "sample_choices ! 3 = ''Age''"
    by (simp_all add: sample_choices_def)
  have s2: "STANDARD_COLUMNS ! 2 = ''age_group''" and s3: "STANDARD_COLUMNS ! 3 = ''age''"
    by (simp_all add: STANDARD_COLUMNS_def)
  have l: "3 < length sample_choices" and l': "3 < length STANDARD_COLUMNS"
    by (simp_all add: sample_choices_def STANDARD_COLUMNS_def)
  have n: "sample_choices ! 3 \<noteq> skip_option"
    by (simp add: c3 skip_option_def)
  have later: "\<forall>k. 3 < k \<and> k < length sample_choices \<longrightarrow> sample_choices ! k \<noteq> sample_choices ! 3"
  proof (intro allI impI)
    fix k
    assume k: "3 < k \<and> k < length sample_choices"
    then have "3 < k" and "k < 26"
      by (simp_all add: sample_choices_def)
    then have k': "4 \<le> k" "k - 4 < 22"
      by arith+
    then have "sample_choices ! k = replicate 22 skip_option ! (k - 4)"
      by (simp add: sample_choices_def nth_append)
    with k' have "sample_choices ! k = skip_option"
      by simp
    then show "sample_choices ! k \<noteq> sample_choices ! 3"
      by (simp add: c3 skip_option_def)
  qed
  from build_mapping_keys_unique [of sample_choices] l l' n later
  have "distinct (map fst (build_mapping sample_choices))"
    and "map_of (build_mapping sample_choices) (sample_choices ! 3) = Some (STANDARD_COLUMNS ! 3)"
    by blast+
  with c2 c3 s2 s3 show ?thesis by simp
qed

text \<open>
  Claim C2, as stated, fails: a source column that is not a key of the mapping is not
  dropped. With the mapping \<open>{Q1: age}\<close> saved, a frame with the columns \<open>Q1\<close>, \<open>sex\<close>
  and \<open>Comments\<close> comes back with the columns \<open>age\<close>, \<open>sex\<close> and \<open>Comments\<close>: the two
  unmapped columns are still there, one of them under a canonical name.
\<close>

theorem rename_drops_unmapped_counterexample:
  "''sex'' \<notin> fst ` set partial_mapping \<and> ''Comments'' \<notin> fst ` set partial_mapping
   \<and> ''sex'' \<in> set STANDARD_COLUMNS
   \<and> map_google_forms (Some (json_dump partial_mapping)) [] False survey_frame
       = Inr (\<lparr>columns = [''age'', ''sex'', ''Comments''],
               cells = [[Str ''17'', Str ''F'', Str ''none'']]\<rparr>,
              Some (json_dump partial_mapping))"
proof -
  have "''sex'' \<notin> fst ` set partial_mapping" and "''Comments'' \<notin> fst ` set partial_mapping"
    by (simp_all add: partial_mapping_def)
  moreover have "''sex'' \<in> set STANDARD_COLUMNS" by (simp add: STANDARD_COLUMNS_def)
  moreover have "map_google_forms (Some (json_dump partial_mapping)) [] False survey_frame
       = Inr (\<lparr>columns = [''age'', ''sex'', ''Comments''],
               cells = [[Str ''17'', Str ''F'', Str ''none'']]\<rparr>,
              Some (json_dump partial_mapping))"
    by code_simp
  ultimately show ?thesis by blast
qed

lemma map_google_forms_saved:
  assumes "load_mapping fs = Inr (Some m)" and "m \<noteq> []"
  shows "map_google_forms fs choices clicked df = Inr (rename_columns m df, fs)"
  using assms by (cases m) (simp_all add: map_google_forms_def)

text \<open>
  Claim C2, amended. Applying a mapping renames exactly the source columns that are keys
  of the mapping, each to the name the mapping gives it; every source column that is not
  a key keeps its place and its own name, and no cell changes.
\<close>

theorem rename_columns_keeps_unmapped:
  "(load_mapping fs = Inr (Some m) \<and> m \<noteq> [] \<longrightarrow>
      map_google_forms fs choices clicked df = Inr (rename_columns m df, fs))
   \<and> length (columns (rename_columns m df)) = length (columns df)
   \<and> cells (rename_columns m df) = cells df
   \<and> (\<forall>i. i < length (columns df) \<longrightarrow>
        (\<forall>t. map_of m (columns df ! i) = Some t \<longrightarrow> columns (rename_columns m df) ! i = t)
        \<and> (columns df ! i \<notin> fst ` set m \<longrightarrow>
             columns (rename_columns m df) ! i = columns df ! i))"
proof -
  have "length (columns (rename_columns m df)) = length (columns df)
   \<and> cells (rename_columns m df) = cells df
   \<and> (\<forall>i. i < length (columns df) \<longrightarrow>
        (\<forall>t. map_of m (columns df ! i) = Some t \<longrightarrow> columns (rename_columns m df) ! i = t)
        \<and> (columns df ! i \<notin> fst ` set m \<longrightarrow>
             columns (rename_columns m df) ! i = columns df ! i))"
    by (auto simp: rename_columns_def rename_label_def map_of_eq_None_iff [symmetric]
        simp del: map_of_eq_None_iff)
  then show ?thesis using map_google_forms_saved [of fs m choices clicked df] by blast
qed

theorem rename_columns_keeps_unmapped_witness:
  "map_google_forms (Some (json_dump partial_mapping)) [] False survey_frame
     = Inr (rename_columns partial_mapping survey_frame, Some (json_dump partial_mapping))
   \<and> map_of partial_mapping (columns survey_frame ! 0) = Some ''age''
   \<and> columns (rename_columns partial_mapping survey_frame) ! 0 = ''age''
   \<and> columns survey_frame ! 1 \<notin> fst ` set partial_mapping
   \<and> columns (rename_columns partial_mapping survey_frame) ! 1 = ''sex''"
proof -
  have ld: "load_mapping (Some (json_dump partial_mapping)) = Inr (Some partial_mapping)"
    by code_simp
  have ne: "partial_mapping \<noteq> []" by (simp add: partial_mapping_def)
  have l0: "0 < length (columns survey_frame)" and l1: "1 < length (columns survey_frame)"
    by (simp_all add: survey_frame_def)
  have k0: "map_of partial_mapping (columns survey_frame ! 0) = Some ''age''"
    by (simp add: survey_frame_def partial_mapping_def)
  have c1: "columns survey_frame ! 1 = ''sex''" by (simp add: survey_frame_def)
  have k1: "columns survey_frame ! 1 \<notin> fst ` set partial_mapping"
    unfolding c1 by (simp add: partial_mapping_def)
  note t = rename_columns_keeps_unmapped
    [of "Some (json_dump partial_mapping)" partial_mapping "[]" False survey_frame]
  from t ld ne
  have "map_google_forms (Some (json_dump partial_mapping)) [] False survey_frame
     = Inr (rename_columns partial_mapping survey_frame, Some (json_dump partial_mapping))"
    by blast
  moreover from t l0 k0
  have "columns (rename_columns partial_mapping survey_frame) ! 0 = ''age''"
    by blast
  moreover from t l1 k1
  have "columns (rename_columns partial_mapping survey_frame) ! 1 = columns survey_frame ! 1"
    by blast
  ultimately show ?thesis using k0 k1 c1 by simp
qed

section \<open>Properties of report generation\<close>

lemma iterrows_length: "length (iterrows df) = length (cells df)"
  by (simp add: iterrows_def)

lemma iterrows_nth:
  "i < length (cells df) \<Longrightarrow> iterrows df ! i = (i, row_of df (cells df ! i))"
  by (simp add: iterrows_def)

lemma is_risk_line_risk_line: "is_risk_line (risk_line p)"
  by (cases p) (simp add: risk_line_def split: prod.splits)

lemma filter_risk_lines: "filter is_risk_line (map risk_line ps) = map risk_line ps"
  by (induction ps) (simp_all add: is_risk_line_risk_line)

lemma risk_lines_not_average: "l \<in> set (map risk_line ps) \<Longrightarrow> \<not> is_average l"
  by (auto simp: risk_line_def split: prod.splits)

lemma column_mean_fails:
  assumes "c \<in> set (columns df)" and "vs \<in> set (cells df)"
    and "row_of df vs c = Some v" and "py_float v = None"
  shows "\<exists>e. column_mean df c = Inl e"
proof -
  let ?col = "map (\<lambda>vs. row_get (row_of df vs) c (Num (PyFloat NaN))) (cells df)"
  let ?f = "\<lambda>v. case py_float v of None \<Rightarrow> Inl ValueError | Some f \<Rightarrow> Inr f"
  have col: "column df c = Some ?col" using assms(1) by (simp add: column_def)
  have "row_get (row_of df vs) c (Num (PyFloat NaN)) = v"
    using assms(3) by (simp add: row_get_def)
  with assms(2) have "v \<in> set ?col" by force
  moreover have "?f v = Inl ValueError" using assms(4) by simp
  ultimately obtain e where "apply_all ?f ?col = Inl e"
    using apply_all_fails [of v ?col ?f ValueError] by blast
  with col show ?thesis by (simp add: column_mean_def)
qed

lemma summary_statistics_fails:
  assumes "column_mean df ''hours_academic'' = Inl e \<or> column_mean df ''hours_non_academic'' = Inl e"
  shows "\<exists>e'. summary_statistics df = Inl e'"
  using assms by (auto simp: summary_statistics_def split: sum.splits)

text \<open>
  Claim C7. When the computation of the two averages fails, the first page of the report
  holds the line \<open>Average hours not available\<close> and no average, the report is still
  produced, its first page holds one risk line per record, in order, made of the record's
  identifier, score and level, and one page per chart follows. A cell of an hours column
  that does not convert to a number is one way for the computation to fail.
\<close>

theorem report_without_averages:
  "(\<forall>e. summary_statistics df = Inl e \<longrightarrow>
      (\<exists>first. generate_pdf df charts = first # map chart_page charts
         \<and> Text ''Average hours not available'' \<in> set first
         \<and> (\<forall>l \<in> set first. \<not> is_average l)
         \<and> length (filter is_risk_line first) = length (cells df)
         \<and> (\<forall>i. i < length (cells df) \<longrightarrow>
               filter is_risk_line first ! i =
                 RiskLine (row_get (row_of df (cells df ! i)) ''timestamp''
                             (Str (''Row '' @ show_nat (i + 1))))
                   (fst (calculate_risk (row_of df (cells df ! i))))
                   (snd (calculate_risk (row_of df (cells df ! i)))))))
   \<and> (\<forall>c vs v. c \<in> {''hours_academic'', ''hours_non_academic''} \<and> c \<in> set (columns df) \<and>
          vs \<in> set (cells df) \<and> row_of df vs c = Some v \<and> py_float v = None \<longrightarrow>
        (\<exists>e. summary_statistics df = Inl e))"
proof (intro conjI allI impI)
  fix e
  assume e: "summary_statistics df = Inl e"
  let ?first = "[Text ''Computer Vision Syndrome Survey Report'', Text ''Summary Statistics:'',
      Text ''Average hours not available'', Text ''Student Risk Summary:'']
      @ map risk_line (iterrows df)"
  have g: "generate_pdf df charts = ?first # map chart_page charts"
    using e by (simp add: generate_pdf_def summary_lines_def)
  have p: "Text ''Average hours not available'' \<in> set ?first" by simp
  have a: "\<forall>l \<in> set ?first. \<not> is_average l"
    using risk_lines_not_average [of _ "iterrows df"] by auto
  have f: "filter is_risk_line ?first = map risk_line (iterrows df)"
    by (simp add: filter_risk_lines)
  have n: "length (filter is_risk_line ?first) = length (cells df)"
    unfolding f by (simp add: iterrows_length)
  have r: "filter is_risk_line ?first ! i =
      RiskLine (row_get (row_of df (cells df ! i)) ''timestamp'' (Str (''Row '' @ show_nat (i + 1))))
        (fst (calculate_risk (row_of df (cells df ! i))))
        (snd (calculate_risk (row_of df (cells df ! i))))"
    if "i < length (cells df)" for i
    unfolding f using that
    by (simp add: iterrows_length iterrows_nth risk_line_def split: prod.splits)
  show "\<exists>first. generate_pdf df charts = first # map chart_page charts
         \<and> Text ''Average hours not available'' \<in> set first
         \<and> (\<forall>l \<in> set first. \<not> is_average l)
         \<and> length (filter is_risk_line first) = length (cells df)
         \<and> (\<forall>i. i < length (cells df) \<longrightarrow>
               filter is_risk_line first ! i =
                 RiskLine (row_get (row_of df (cells df ! i)) ''timestamp''
                             (Str (''Row '' @ show_nat (i + 1))))
                   (fst (calculate_risk (row_of df (cells df ! i))))
                   (snd (calculate_risk (row_of df (cells df ! i)))))"
  proof (intro exI [where x = ?first] conjI allI impI)
    show "generate_pdf df charts = ?first # map chart_page charts" by (rule g)
    show "Text ''Average hours not available'' \<in> set ?first" by (rule p)
    show "\<forall>l \<in> set ?first. \<not> is_average l" by (rule a)
    show "length (filter is_risk_line ?first) = length (cells df)" by (rule n)
    show "filter is_risk_line ?first ! i =
      RiskLine (row_get (row_of df (cells df ! i)) ''timestamp'' (Str (''Row '' @ show_nat (i + 1))))
        (fst (calculate_risk (row_of df (cells df ! i))))
        (snd (calculate_risk (row_of df (cells df ! i))))"
      if "i < length (cells df)" for i
      using that by (rule r)
  qed
next
  fix c vs v
  assume h: "c \<in> {''hours_academic'', ''hours_non_academic''} \<and> c \<in> set (columns df) \<and>
          vs \<in> set (cells df) \<and> row_of df vs c = Some v \<and> py_float v = None"
  then obtain e where "column_mean df c = Inl e"
    using column_mean_fails [of c df vs v] by blast
  moreover from h have "c = ''hours_academic'' \<or> c = ''hours_non_academic''"
    by blast
  ultimately
  have "column_mean df ''hours_academic'' = Inl e \<or> column_mean df ''hours_non_academic'' = Inl e"
    by blast
  then show "\<exists>e. summary_statistics df = Inl e" by (rule summary_statistics_fails)
qed

theorem report_without_averages_witness:
  "row_of text_hours_frame (cells text_hours_frame ! 0) ''hours_academic'' = Some (Str ''a lot'')
   \<and> py_float (Str ''a lot'') = None
   \<and> (\<exists>e. summary_statistics text_hours_frame = Inl e)
   \<and> (\<exists>first. generate_pdf text_hours_frame [(''symptoms'', Bar [])]
                 = first # map chart_page [(''symptoms'', Bar [])]
         \<and> Text ''Average hours not available'' \<in> set first
         \<and> length (filter is_risk_line first) = 2)"
proof -
  have c: "''hours_academic'' \<in> set (columns text_hours_frame)" by code_simp
  have m: "cells text_hours_frame ! 0 \<in> set (cells text_hours_frame)" by code_simp
  have r: "row_of text_hours_frame (cells text_hours_frame ! 0) ''hours_academic''
      = Some (Str ''a lot'')"
    by code_simp
  have f: "py_float (Str ''a lot'') = None" by code_simp
  have n: "length (cells text_hours_frame) = 2" by code_simp
  note t = report_without_averages [of text_hours_frame "[(''symptoms'', Bar [])]"]
  from t c m r f have e: "\<exists>e. summary_statistics text_hours_frame = Inl e"
    by blast
  with t have "\<exists>first. generate_pdf text_hours_frame [(''symptoms'', Bar [])]
                 = first # map chart_page [(''symptoms'', Bar [])]
         \<and> Text ''Average hours not available'' \<in> set first
         \<and> length (filter is_risk_line first) = length (cells text_hours_frame)"
    by blast
  with r f e n show ?thesis by simp
qed


section \<open>Properties of the mapping file\<close>

lemma hex_val_hex_digit: "k < 16 \<Longrightarrow> hex_val (hex_digit k) = Some k"
  by (simp add: hex_val_def hex_digit_def Let_def)

lemma hex4_escape:
  "hex4 [CHR ''0'', CHR ''0'', hex_digit (of_char c div 16), hex_digit (of_char c mod 16)]
     = Some (of_char c)"
proof -
  have "(of_char c :: nat) < 256" by simp
  then have "(of_char c :: nat) div 16 < 16" by (intro less_mult_imp_div_less) simp
  then have 1: "hex_val (hex_digit (of_char c div 16)) = Some (of_char c div 16)"
    by (rule hex_val_hex_digit)
  have 2: "hex_val (hex_digit (of_char c mod 16)) = Some (of_char c mod 16)"
    by (rule hex_val_hex_digit) simp
  have 0: "hex_val CHR ''0'' = Some 0" by (simp add: hex_val_def)
  show ?thesis by (simp add: hex4_def 0 1 2)
qed

lemma string_body_escape_char:
  "string_body (escape_char c @ rest) = map_option (\<lambda>(s, r). (c # s, r)) (string_body rest)"
proof -
  consider (quote) "c = CHR 0x22" | (backslash) "c = CHR 0x5C" | (nl) "c = CHR 0x0A"
    | (cr) "c = CHR 0x0D" | (tab) "c = CHR 0x09" | (bs) "c = CHR 0x08" | (ff) "c = CHR 0x0C"
    | (plain) "c \<notin> {CHR 0x22, CHR 0x5C, CHR 0x0A, CHR 0x0D, CHR 0x09, CHR 0x08, CHR 0x0C}"
        "32 \<le> (of_char c :: nat) \<and> (of_char c :: nat) \<le> 126"
    | (other) "c \<notin> {CHR 0x22, CHR 0x5C, CHR 0x0A, CHR 0x0D, CHR 0x09, CHR 0x08, CHR 0x0C}"
        "\<not> (32 \<le> (of_char c :: nat) \<and> (of_char c :: nat) \<le> 126)"
    by blast
  then show ?thesis
  proof cases
    case quote
    then show ?thesis by (simp add: escape_char_def unescape_def)
  next
    case backslash
    then show ?thesis by (simp add: escape_char_def unescape_def)
  next
    case nl
    then show ?thesis by (simp add: escape_char_def unescape_def)
  next
    case cr
    then show ?thesis by (simp add: escape_char_def unescape_def)
  next
    case tab
    then show ?thesis by (simp add: escape_char_def unescape_def)
  next
    case bs
    then show ?thesis by (simp add: escape_char_def unescape_def)
  next
    case ff
    then show ?thesis by (simp add: escape_char_def unescape_def)
  next
    case plain
    then show ?thesis by (simp add: escape_char_def Let_def)
  next
    case other
    then have e: "escape_char c = [CHR 0x5C, CHR ''u'', CHR ''0'', CHR ''0'',
        hex_digit (of_char c div 16), hex_digit (of_char c mod 16)]"
      by (simp add: escape_char_def Let_def)
    show ?thesis
      unfolding e by (simp add: hex4_escape)
  qed
qed

lemma string_body_escaped:
  "string_body (concat (map escape_char s) @ CHR 0x22 # rest) = Some (s, rest)"
  by (induction s) (simp_all add: string_body_escape_char)

lemma string_lit_json_string:
  "string_lit (json_string s @ rest) = Some (s, rest)"
  by (simp add: string_lit_def json_string_def string_body_escaped)


lemma json_items_members_text: "kvs \<noteq> [] \<Longrightarrow> json_items kvs = ''    '' @ members_text kvs"
  by (induction kvs rule: json_items.induct) (simp_all add: json_item_def)

lemma skip_ws_Nil: "skip_ws [] = []"
  by (simp add: skip_ws_def)

lemma skip_ws_Cons: "skip_ws (c # cs) = (if is_ws c then skip_ws cs else c # cs)"
  by (simp add: skip_ws_def)

lemma skip_ws_json_string: "skip_ws (json_string s @ x) = json_string s @ x"
  by (simp add: skip_ws_def json_string_def is_ws_def)

lemma json_member_quote: "\<exists>x. json_member kv = CHR 0x22 # x"
  by (simp add: json_member_def json_string_def)

lemma members_text_quote: "\<exists>x. members_text (kv # kvs) = CHR 0x22 # x"
proof (cases kvs)
  case Nil
  then show ?thesis using json_member_quote [of kv] by simp
next
  case (Cons a list)
  from json_member_quote [of kv] obtain x where "json_member kv = CHR 0x22 # x" ..
  with Cons show ?thesis by simp
qed

lemma members_unfold:
  "members acc (json_member (k, v) @ tail) =
     (case skip_ws tail of
        [] \<Rightarrow> None
      | d # r4 \<Rightarrow>
          if d = CHR ''}'' then Some (AList.update k v acc, r4)
          else if d = CHR '','' then members (AList.update k v acc) (skip_ws r4)
          else None)"
proof -
  have 1: "string_lit (json_member (k, v) @ tail)
      = Some (k, CHR '':'' # CHR '' '' # json_string v @ tail)"
    using string_lit_json_string [of k "CHR '':'' # CHR '' '' # json_string v @ tail"]
    by (simp add: json_member_def)
  have 2: "skip_ws (CHR '':'' # CHR '' '' # json_string v @ tail)
      = CHR '':'' # CHR '' '' # json_string v @ tail"
    by (simp add: skip_ws_Cons is_ws_def)
  have 3: "skip_ws (CHR '' '' # json_string v @ tail) = json_string v @ tail"
    by (simp add: skip_ws_Cons is_ws_def skip_ws_json_string)
  have 4: "string_lit (json_string v @ tail) = Some (v, tail)"
    by (rule string_lit_json_string)
  show ?thesis
    by (subst members.simps) (simp only: 1 2 3 4 option.case prod.case list.case if_False not_not
        refl if_True simp_thms)
qed

lemma members_last:
  "members acc (json_member (k, v) @ CHR 0x0A # CHR ''}'' # rest) = Some (AList.update k v acc, rest)"
  by (simp add: members_unfold skip_ws_Cons is_ws_def)

lemma members_more:
  "members acc (json_member (k, v) @ CHR '','' # CHR 0x0A # ''    '' @ CHR 0x22 # x)
     = members (AList.update k v acc) (CHR 0x22 # x)"
  by (simp add: members_unfold skip_ws_Cons is_ws_def)

lemma members_all:
  "members acc (members_text (kv # kvs) @ CHR 0x0A # CHR ''}'' # rest)
     = Some (fold (\<lambda>(k, v). AList.update k v) (kv # kvs) acc, rest)"
proof (induction kvs arbitrary: kv acc)
  case Nil
  obtain k v where kv: "kv = (k, v)" by (cases kv)
  show ?case using members_last [of acc k v rest] by (simp add: kv)
next
  case (Cons kv' kvs)
  obtain k v where kv: "kv = (k, v)" by (cases kv)
  from members_text_quote [of kv' kvs] obtain x where x: "members_text (kv' # kvs) = CHR 0x22 # x" ..
  have "members acc (members_text (kv # kv' # kvs) @ CHR 0x0A # CHR ''}'' # rest)
      = members acc (json_member (k, v) @ CHR '','' # CHR 0x0A # ''    '' @ CHR 0x22 # (x @ CHR 0x0A # CHR ''}'' # rest))"
    by (simp add: kv x)
  also have "\<dots> = members (AList.update k v acc) (CHR 0x22 # (x @ CHR 0x0A # CHR ''}'' # rest))"
    by (rule members_more)
  also have "\<dots> = members (AList.update k v acc) (members_text (kv' # kvs) @ CHR 0x0A # CHR ''}'' # rest)"
    by (simp add: x)
  also have "\<dots> = Some (fold (\<lambda>(k, v). AList.update k v) (kv' # kvs) (AList.update k v acc), rest)"
    by (rule Cons.IH)
  finally show ?case by (simp add: kv)
qed

lemma update_new_key: "k \<notin> fst ` set al \<Longrightarrow> AList.update k v al = al @ [(k, v)]"
  by (induction al) auto

lemma fold_update_distinct:
  "distinct (map fst (acc @ m)) \<Longrightarrow> fold (\<lambda>(k, v). AList.update k v) m acc = acc @ m"
proof (induction m arbitrary: acc)
  case Nil
  then show ?case by simp
next
  case (Cons kv m)
  obtain k v where kv: "kv = (k, v)" by (cases kv)
  from Cons.prems have new: "k \<notin> fst ` set acc" by (auto simp: kv)
  from Cons.prems have "distinct (map fst ((acc @ [(k, v)]) @ m))" by (simp add: kv)
  then have "fold (\<lambda>(k, v). AList.update k v) m (acc @ [(k, v)]) = (acc @ [(k, v)]) @ m"
    by (rule Cons.IH)
  with new show ?case by (simp add: kv update_new_key)
qed

lemma json_load_dump:
  assumes "distinct (map fst m)"
  shows "json_load (json_dump m) = Some m"
proof (cases m)
  case Nil
  then show ?thesis
    by (simp add: json_dump_def json_load_def skip_ws_Cons skip_ws_Nil is_ws_def)
next
  case (Cons kv kvs)
  from members_text_quote [of kv kvs] obtain x where x: "members_text (kv # kvs) = CHR 0x22 # x" ..
  have d: "json_dump m = CHR ''{'' # CHR 0x0A # ''    '' @ members_text (kv # kvs) @ [CHR 0x0A, CHR ''}'']"
    using Cons by (simp add: json_dump_def json_items_members_text)
  have m: "members [] (CHR 0x22 # x @ [CHR 0x0A, CHR ''}'']) = Some (m, [])"
  proof -
    have "members [] (members_text (kv # kvs) @ CHR 0x0A # CHR ''}'' # [])
        = Some (fold (\<lambda>(k, v). AList.update k v) (kv # kvs) [], [])"
      by (rule members_all)
    moreover have "fold (\<lambda>(k, v). AList.update k v) (kv # kvs) [] = [] @ (kv # kvs)"
      by (rule fold_update_distinct) (use assms Cons in simp)
    ultimately show ?thesis using Cons x by simp
  qed
  show ?thesis
    unfolding d x
    by (simp add: json_load_def skip_ws_Cons skip_ws_Nil is_ws_def m)
qed

text \<open>
  Claim C5. For every mapping (a dictionary, so with distinct keys), loading after saving
  it returns that mapping, whatever the file held before; loading after a reset reports
  that there is no mapping; and a save after the reset makes the saved mapping the one
  that is loaded.
\<close>

theorem mapping_round_trip:
  "(distinct (map fst m) \<longrightarrow> load_mapping (save_mapping m fs) = Inr (Some m))
   \<and> load_mapping (reset_mapping fs) = Inr None
   \<and> (distinct (map fst m) \<longrightarrow> load_mapping (save_mapping m (reset_mapping fs)) = Inr (Some m))"
  by (simp add: load_mapping_def save_mapping_def reset_mapping_def json_load_dump
      split: option.splits)

theorem mapping_round_trip_witness:
  "distinct (map fst partial_mapping)
   \<and> load_mapping (save_mapping partial_mapping None) = Inr (Some partial_mapping)
   \<and> load_mapping (reset_mapping (save_mapping partial_mapping None)) = Inr None"
proof -
  have d: "distinct (map fst partial_mapping)" by (simp add: partial_mapping_def)
  from mapping_round_trip [of partial_mapping None] d
  have "load_mapping (save_mapping partial_mapping None) = Inr (Some partial_mapping)"
    by blast
  moreover from mapping_round_trip [of partial_mapping "save_mapping partial_mapping None"]
  have "load_mapping (reset_mapping (save_mapping partial_mapping None)) = Inr None"
    by blast
  ultimately show ?thesis using d by blast
qed

end
